theory Spec2Isabelle
  imports Main
begin

section \<open>The platform the hook runs on\<close>

text \<open>
  The hook of \<^verbatim>\<open>use-query-string-state.ts\<close> is written against the browser: strings,
  numbers, plain objects, \<^verbatim>\<open>URLSearchParams\<close>, \<^verbatim>\<open>encodeURIComponent\<close>, the location
  and the history.  This section fixes how those are represented; the sections after it
  follow the source function by function.

  A string is the sequence of bytes of its UTF-8 form, one \<^typ>\<open>char\<close> per byte.  The
  percent-encoding of the query string works on exactly these bytes.
\<close>

subsection \<open>Numbers\<close>

text \<open>
  The arithmetic of IEEE doubles is not part of the hook.  The three primitives the source
  uses are taken as a parameter: \<^verbatim>\<open>Number(s)\<close> (also written \<^verbatim>\<open>+s\<close>),
  \<^verbatim>\<open>Number.isFinite(n)\<close> (which \<^verbatim>\<open>n - n === 0\<close> computes as well) and the conversion
  of a number to a string.
\<close>

record 'n numerics =
  Number :: "string \<Rightarrow> 'n"
  isFinite :: "'n \<Rightarrow> bool"
  NumberToString :: "'n \<Rightarrow> string"

subsection \<open>Values and plain objects\<close>

datatype 'n jsval =
    Undefined
  | Null
  | Str string
  | Num 'n
  | Arr "'n jsval list"

text \<open>
  A plain object is the list of its own properties in the order in which JavaScript lists
  them (\<^verbatim>\<open>Object.entries\<close>, \<^verbatim>\<open>Object.assign\<close>): first the names that are array indices,
  by ascending index, then the other names in the order of their creation.  No name
  occurs twice.  The objects of the hook are plain objects: their prototype is
  \<^verbatim>\<open>Object.prototype\<close>, which is not part of the list.
\<close>

type_synonym 'n obj = "(string \<times> 'n jsval) list"

definition ownKeys :: "'n obj \<Rightarrow> string list" where
  "ownKeys ob = map fst ob"

text \<open>
  An array index is a name that is the decimal numeral, without leading zeros, of a whole
  number below \<open>2\<^sup>3\<^sup>2 - 1\<close>.
\<close>

definition readNat :: "string \<Rightarrow> nat option" where
  "readNat s =
     (if s \<noteq> [] \<and> list_all (\<lambda>c. 48 \<le> (of_char c :: nat) \<and> (of_char c :: nat) \<le> 57) s
      then Some (foldl (\<lambda>n c. 10 * n + (of_char c - 48)) 0 s)
      else None)"

definition arrayIndex :: "string \<Rightarrow> nat option" where
  "arrayIndex k =
     (case readNat k of
        None \<Rightarrow> None
      | Some i \<Rightarrow>
          if (k = ''0'' \<or> take 1 k \<noteq> ''0'') \<and> int i < 4294967295 then Some i else None)"

text \<open>
  \<^verbatim>\<open>key in ob\<close> holds of the object's own names and of the names it inherits from
  \<^verbatim>\<open>Object.prototype\<close>.
\<close>

definition inheritedNames :: "string list" where
  "inheritedNames =
     [''constructor'', ''__defineGetter__'', ''__defineSetter__'', ''hasOwnProperty'',
      ''__lookupGetter__'', ''__lookupSetter__'', ''isPrototypeOf'', ''propertyIsEnumerable'',
      ''toString'', ''valueOf'', ''__proto__'', ''toLocaleString'']"

definition hasKey :: "string \<Rightarrow> 'n obj \<Rightarrow> bool" where
  "hasKey k ob = (k \<in> set (ownKeys ob) \<or> k \<in> set inheritedNames)"

text \<open>
  \<^verbatim>\<open>ob[key]\<close> for an own name.  For any other name \<open>getProp\<close> answers \<^verbatim>\<open>undefined\<close>; for an
  inherited name JavaScript answers a function or the prototype instead.  The source
  reads a property only under \<^verbatim>\<open>typeof ... === "number"\<close>, which is false of all of
  these.
\<close>

definition getProp :: "'n obj \<Rightarrow> string \<Rightarrow> 'n jsval" where
  "getProp ob k = (case map_of ob k of None \<Rightarrow> Undefined | Some v \<Rightarrow> v)"

text \<open>
  \<^verbatim>\<open>ob[key] = v\<close>, which \<^verbatim>\<open>Object.assign\<close> performs too.  An own property gets the new value
  and keeps its place.  Otherwise the name \<^verbatim>\<open>__proto__\<close> reaches the setter that
  \<^verbatim>\<open>Object.prototype\<close> has for it: the setter changes the prototype (to an array, or to
  none for \<^verbatim>\<open>null\<close>) or does nothing (for a string or a number), and the object gets no
  property.  Every other name
  becomes a new own property, at the place its name has in the order of the list.  (After
  such a change of prototype all this stays as it is: an array holds no setter, so an
  assignment still makes an own property, and the hook reads the object only through its
  own properties.)
\<close>

fun replaceProp :: "'n obj \<Rightarrow> string \<Rightarrow> 'n jsval \<Rightarrow> 'n obj" where
  "replaceProp [] k v = []"
| "replaceProp ((k', v') # ob) k v =
     (if k' = k then (k, v) # ob else (k', v') # replaceProp ob k v)"

definition listedBefore :: "string \<Rightarrow> string \<Rightarrow> bool" where
  "listedBefore k k' =
     (case arrayIndex k of
        None \<Rightarrow> False
      | Some i \<Rightarrow> (case arrayIndex k' of None \<Rightarrow> True | Some j \<Rightarrow> i < j))"

fun insertProp :: "'n obj \<Rightarrow> string \<Rightarrow> 'n jsval \<Rightarrow> 'n obj" where
  "insertProp [] k v = [(k, v)]"
| "insertProp ((k', v') # ob) k v =
     (if listedBefore k k' then (k, v) # (k', v') # ob else (k', v') # insertProp ob k v)"

definition setProp :: "'n obj \<Rightarrow> string \<Rightarrow> 'n jsval \<Rightarrow> 'n obj" where
  "setProp ob k v =
     (if k \<in> set (ownKeys ob) then replaceProp ob k v
      else if k = ''__proto__'' then ob
      else insertProp ob k v)"

text \<open>\<^verbatim>\<open>Object.assign(target, source)\<close> copies the source's properties in their order.\<close>

definition Object_assign :: "'n obj \<Rightarrow> 'n obj \<Rightarrow> 'n obj" where
  "Object_assign target source = foldl (\<lambda>t (k, v). setProp t k v) target source"

text \<open>\<^verbatim>\<open>typeof v === "number"\<close>\<close>

fun typeof_number :: "'n jsval \<Rightarrow> bool" where
  "typeof_number (Num n) = True"
| "typeof_number v = False"

text \<open>
  \<^verbatim>\<open>v == undefined || v == null\<close>: loose equality, so each test holds of both values.
\<close>

fun nullish :: "'n jsval \<Rightarrow> bool" where
  "nullish Undefined = True"
| "nullish Null = True"
| "nullish v = False"

text \<open>\<^verbatim>\<open>xs.join(sep)\<close> on strings\<close>

fun join :: "string \<Rightarrow> string list \<Rightarrow> string" where
  "join sep [] = []"
| "join sep [x] = x"
| "join sep (x # y # ys) = x @ sep @ join sep (y # ys)"

text \<open>
  The conversion of a value to a string, which \<^verbatim>\<open>encodeURIComponent\<close> applies to its
  argument.  An array is the join of its elements by a comma, where an element that is
  \<^verbatim>\<open>null\<close> or \<^verbatim>\<open>undefined\<close> gives the empty string.
\<close>

fun ToString :: "'n numerics \<Rightarrow> 'n jsval \<Rightarrow> string" where
  "ToString N Undefined = ''undefined''"
| "ToString N Null = ''null''"
| "ToString N (Str s) = s"
| "ToString N (Num n) = NumberToString N n"
| "ToString N (Arr xs) =
     join '','' (map (\<lambda>x. if nullish x then [] else ToString N x) xs)"

subsection \<open>White space\<close>

text \<open>
  \<^verbatim>\<open>s.trim()\<close> removes white space and line terminators from both ends.  \<open>wsLength s\<close>
  is the number of bytes of the white-space character that \<open>s\<close> starts with, and 0 when it
  starts with none: the six ASCII ones, U+00A0, U+1680, U+2000 to U+200A, U+2028, U+2029,
  U+202F, U+205F, U+3000 and U+FEFF.
\<close>

fun wsLength :: "string \<Rightarrow> nat" where
  "wsLength [] = 0"
| "wsLength (a # s) =
     (if a \<in> {CHR 0x09, CHR 0x0A, CHR 0x0B, CHR 0x0C, CHR 0x0D, CHR 0x20} then 1
      else case s of
        [] \<Rightarrow> 0
      | b # s' \<Rightarrow>
          if a = CHR 0xC2 \<and> b = CHR 0xA0 then 2
          else (case s' of
            [] \<Rightarrow> 0
          | c # _ \<Rightarrow>
              if a = CHR 0xE1 \<and> b = CHR 0x9A \<and> c = CHR 0x80 then 3
              else if a = CHR 0xE2 \<and> b = CHR 0x80 \<and>
                      (of_char c \<in> {0x80 .. (0x8A::nat)} \<or> c \<in> {CHR 0xA8, CHR 0xA9, CHR 0xAF})
                then 3
              else if a = CHR 0xE2 \<and> b = CHR 0x81 \<and> c = CHR 0x9F then 3
              else if a = CHR 0xE3 \<and> b = CHR 0x80 \<and> c = CHR 0x80 then 3
              else if a = CHR 0xEF \<and> b = CHR 0xBB \<and> c = CHR 0xBF then 3
              else 0))"

function trimStart :: "string \<Rightarrow> string" where
  "trimStart s = (if wsLength s = 0 then s else trimStart (drop (wsLength s) s))"
  by pat_completeness auto
termination
proof (relation "measure length")
  fix s :: string
  assume "wsLength s \<noteq> 0"
  then have "s \<noteq> []"
    by (cases s) simp_all
  with \<open>wsLength s \<noteq> 0\<close> show "(drop (wsLength s) s, s) \<in> measure length"
    by simp
qed simp

declare trimStart.simps [simp del]

text \<open>
  No white-space character begins in the middle of another character, so the end can be
  trimmed from the front: the rest is dropped as soon as all of it is white space.
\<close>

fun trimEnd :: "string \<Rightarrow> string" where
  "trimEnd [] = []"
| "trimEnd (a # s) = (if trimStart (a # s) = [] then [] else a # trimEnd s)"

definition trim :: "string \<Rightarrow> string" where
  "trim s = trimEnd (trimStart s)"

subsection \<open>Percent-encoding\<close>

definition alphanumeric :: "char set" where
  "alphanumeric = set ''ABCDEFGHIJKLMNOPQRSTUVWXYZabcdefghijklmnopqrstuvwxyz0123456789''"

definition hexDigit :: "nat \<Rightarrow> char" where
  "hexDigit n = ''0123456789ABCDEF'' ! (n mod 16)"

definition percentByte :: "char \<Rightarrow> string" where
  "percentByte c = [CHR ''%'', hexDigit (of_char c div 16), hexDigit (of_char c mod 16)]"

text \<open>
  A JavaScript string may hold an unpaired surrogate, a code point from U+D800 to U+DFFF
  that UTF-8 has no form for.  It is written here in the generalised three-byte form,
  \<^verbatim>\<open>ED\<close> followed by a byte from \<^verbatim>\<open>A0\<close> up; well-formed text never has \<^verbatim>\<open>ED\<close> before
  such a byte.
\<close>

fun unpairedSurrogate :: "string \<Rightarrow> bool" where
  "unpairedSurrogate (a # b # s) =
     ((a = CHR 0xED \<and> (0xA0::nat) \<le> of_char b) \<or> unpairedSurrogate (b # s))"
| "unpairedSurrogate s = False"

datatype exn =
    URIError
  | Thrown string

text \<open>
  \<^verbatim>\<open>encodeURIComponent(s)\<close> raises \<^verbatim>\<open>URIError\<close> on an unpaired surrogate.  Otherwise it
  keeps the letters, the digits and \<^verbatim>\<open>- _ . ! ~ * ' ( )\<close> and writes every other byte
  as \<^verbatim>\<open>%XX\<close>.
\<close>

definition uriUnreserved :: "char set" where
  "uriUnreserved = alphanumeric \<union> set ''-_.!~*()'' \<union> {CHR 0x27}"

definition uriEscape :: "string \<Rightarrow> string" where
  "uriEscape s = concat (map (\<lambda>c. if c \<in> uriUnreserved then [c] else percentByte c) s)"

definition encodeURIComponent :: "string \<Rightarrow> exn + string" where
  "encodeURIComponent s = (if unpairedSurrogate s then Inl URIError else Inr (uriEscape s))"

definition hexValue :: "char \<Rightarrow> nat option" where
  "hexValue c =
     (let n = (of_char c :: nat) in
      if 48 \<le> n \<and> n \<le> 57 then Some (n - 48)
      else if 65 \<le> n \<and> n \<le> 70 then Some (n - 55)
      else if 97 \<le> n \<and> n \<le> 102 then Some (n - 87)
      else None)"

text \<open>
  Percent-decoding: \<^verbatim>\<open>%\<close> followed by two hexadecimal digits is one byte, and any
  other \<^verbatim>\<open>%\<close> stands for itself.
\<close>

fun percentDecode :: "string \<Rightarrow> string" where
  "percentDecode (c # h # l # s) =
     (case (if c = CHR ''%'' then hexValue h else None, hexValue l) of
        (Some x, Some y) \<Rightarrow> char_of (x * 16 + y) # percentDecode s
      | _ \<Rightarrow> c # percentDecode (h # l # s))"
| "percentDecode s = s"

subsection \<open>Decoding UTF-8\<close>

text \<open>
  The browser reads the bytes of a query string as UTF-8 and puts U+FFFD, in UTF-8
  \<^verbatim>\<open>EF BF BD\<close>, for every piece that is not well formed.  \<open>utf8Step a s\<close> reads one
  character that begins with the byte \<open>a\<close>: it gives what is written for it and the bytes
  still to read.  A lead byte fixes how many continuation bytes follow and the range of
  the first of them; a byte out of range ends the character with U+FFFD and is read
  again as the start of the next one.
\<close>

definition replacement :: string where
  "replacement = [CHR 0xEF, CHR 0xBF, CHR 0xBD]"

definition inRange :: "nat \<Rightarrow> nat \<Rightarrow> char \<Rightarrow> bool" where
  "inRange lo hi c = (lo \<le> of_char c \<and> (of_char c :: nat) \<le> hi)"

definition utf8Step :: "char \<Rightarrow> string \<Rightarrow> string \<times> string" where
  "utf8Step a s =
     (if inRange 0x00 0x7F a then ([a], s)
      else if inRange 0xC2 0xDF a then
        (case s of
           [] \<Rightarrow> (replacement, [])
         | b # s1 \<Rightarrow>
             if inRange 0x80 0xBF b then ([a, b], s1) else (replacement, s))
      else if inRange 0xE0 0xEF a then
        (case s of
           [] \<Rightarrow> (replacement, [])
         | b # s1 \<Rightarrow>
             if inRange (if a = CHR 0xE0 then 0xA0 else 0x80) (if a = CHR 0xED then 0x9F else 0xBF) b
             then (case s1 of
                     [] \<Rightarrow> (replacement, [])
                   | c # s2 \<Rightarrow>
                       if inRange 0x80 0xBF c then ([a, b, c], s2) else (replacement, s1))
             else (replacement, s))
      else if inRange 0xF0 0xF4 a then
        (case s of
           [] \<Rightarrow> (replacement, [])
         | b # s1 \<Rightarrow>
             if inRange (if a = CHR 0xF0 then 0x90 else 0x80) (if a = CHR 0xF4 then 0x8F else 0xBF) b
             then (case s1 of
                     [] \<Rightarrow> (replacement, [])
                   | c # s2 \<Rightarrow>
                       if inRange 0x80 0xBF c
                       then (case s2 of
                               [] \<Rightarrow> (replacement, [])
                             | d # s3 \<Rightarrow>
                                 if inRange 0x80 0xBF d then ([a, b, c, d], s3)
                                 else (replacement, s2))
                       else (replacement, s1))
             else (replacement, s))
      else (replacement, s))"

function utf8Decode :: "string \<Rightarrow> string" where
  "utf8Decode [] = []"
| "utf8Decode (a # s) = fst (utf8Step a s) @ utf8Decode (snd (utf8Step a s))"
  by pat_completeness auto
termination
proof (relation "measure length")
  fix a :: char and s :: string
  have "length (snd (utf8Step a s)) \<le> length s"
    by (simp add: utf8Step_def split: list.split)
  then show "(snd (utf8Step a s), a # s) \<in> measure length"
    by simp
qed simp

text \<open>Text is what the decoder leaves as it is: well-formed UTF-8.\<close>

definition utf8Text :: "string \<Rightarrow> bool" where
  "utf8Text s = (utf8Decode s = s)"

subsection \<open>URLSearchParams\<close>

text \<open>
  A \<^verbatim>\<open>URLSearchParams\<close> object is its list of name-value pairs.  The constructor drops
  one leading \<^verbatim>\<open>?\<close> and parses the rest as the URL standard says: split at \<^verbatim>\<open>&\<close>, skip
  the empty pieces, split each piece at its first \<^verbatim>\<open>=\<close>, turn \<^verbatim>\<open>+\<close> into a space,
  percent-decode and read the bytes as UTF-8.  (Every string the hook parses was written
  by \<^verbatim>\<open>toString\<close> and is text; a string with an unpaired surrogate would first have it
  replaced by U+FFFD.)
\<close>

type_synonym params = "(string \<times> string) list"

fun splitOn :: "char \<Rightarrow> string \<Rightarrow> string list" where
  "splitOn d [] = [[]]"
| "splitOn d (c # s) =
     (if c = d then [] # splitOn d s
      else case splitOn d s of [] \<Rightarrow> [[c]] | piece # pieces \<Rightarrow> (c # piece) # pieces)"

definition plusToSpace :: "string \<Rightarrow> string" where
  "plusToSpace s = map (\<lambda>c. if c = CHR ''+'' then CHR '' '' else c) s"

definition parsePiece :: "string \<Rightarrow> string \<times> string" where
  "parsePiece piece =
     (let name = takeWhile (\<lambda>c. c \<noteq> CHR ''='') piece;
          val = drop 1 (dropWhile (\<lambda>c. c \<noteq> CHR ''='') piece)
      in (utf8Decode (percentDecode (plusToSpace name)),
          utf8Decode (percentDecode (plusToSpace val))))"

definition urlencodedParse :: "string \<Rightarrow> params" where
  "urlencodedParse s = map parsePiece (filter (\<lambda>piece. piece \<noteq> []) (splitOn CHR ''&'' s))"

definition URLSearchParams :: "string \<Rightarrow> params" where
  "URLSearchParams init =
     urlencodedParse (case init of c # s \<Rightarrow> if c = CHR ''?'' then s else init | [] \<Rightarrow> init)"

definition keys :: "params \<Rightarrow> string list" where
  "keys ps = map fst ps"

definition getAll :: "params \<Rightarrow> string \<Rightarrow> string list" where
  "getAll ps name = map snd (filter (\<lambda>p. fst p = name) ps)"

text \<open>\<^verbatim>\<open>get\<close> is the first value of the name, \<^verbatim>\<open>null\<close> when there is none.\<close>

definition get :: "params \<Rightarrow> string \<Rightarrow> 'n jsval" where
  "get ps name = (case getAll ps name of [] \<Rightarrow> Null | v # _ \<Rightarrow> Str v)"

text \<open>\<^verbatim>\<open>delete\<close> removes every pair of the name.\<close>

definition delete :: "string \<Rightarrow> params \<Rightarrow> params" where
  "delete name ps = filter (\<lambda>p. fst p \<noteq> name) ps"

text \<open>
  \<^verbatim>\<open>toString()\<close> writes the pairs back: a space becomes \<^verbatim>\<open>+\<close>, the letters, the digits
  and \<^verbatim>\<open>* - . _\<close> stay, every other byte becomes \<^verbatim>\<open>%XX\<close>.
\<close>

definition formEscape :: "string \<Rightarrow> string" where
  "formEscape s =
     concat (map (\<lambda>c. if c = CHR '' '' then ''+''
                       else if c \<in> alphanumeric \<union> set ''*-._'' then [c]
                       else percentByte c) s)"

definition toString :: "params \<Rightarrow> string" where
  "toString ps = join ''&'' (map (\<lambda>(name, val). formEscape name @ ''='' @ formEscape val) ps)"

text \<open>
  \<^verbatim>\<open>new Set(xs)\<close> keeps the first occurrence of each element, in order; \<^verbatim>\<open>forEach\<close>
  visits them in that order.
\<close>

definition SetOf :: "'a list \<Rightarrow> 'a list" where
  "SetOf xs = foldl (\<lambda>seen x. if x \<in> set seen then seen else seen @ [x]) [] xs"

section \<open>The codec\<close>

text \<open>\<^verbatim>\<open>isNumber\<close>, lines 21 to 29.\<close>

fun isNumber :: "'n numerics \<Rightarrow> 'n jsval \<Rightarrow> bool" where
  "isNumber N (Num n) = isFinite N n"
| "isNumber N (Str s) = (trim s \<noteq> [] \<and> isFinite N (Number N s))"
| "isNumber N v = False"

text \<open>\<^verbatim>\<open>toNumberable\<close>, lines 31 to 42.\<close>

fun toNumberable :: "'n numerics \<Rightarrow> 'n jsval \<Rightarrow> 'n jsval" where
  "toNumberable N (Arr xs) = Arr (map (toNumberable N) xs)"
| "toNumberable N (Str s) = (if isNumber N (Str s) then Num (Number N s) else Str s)"
| "toNumberable N v = v"

text \<open>
  \<^verbatim>\<open>parseQueryString\<close>, lines 44 to 61.  The hook passes a plain object as
  \<^verbatim>\<open>initialValue\<close>, so \<^verbatim>\<open>initialValue instanceof Object\<close> holds.
\<close>

definition parseQueryString :: "'n numerics \<Rightarrow> string \<Rightarrow> 'n obj \<Rightarrow> 'n obj" where
  "parseQueryString N searchParams initialValue =
     (let urlParams = URLSearchParams searchParams in
      foldl (\<lambda>output key.
          setProp output key
            (if length (getAll urlParams key) > 1
             then Arr (map Str (getAll urlParams key))
             else if hasKey key initialValue \<and> typeof_number (getProp initialValue key)
             then toNumberable N (get urlParams key)
             else get urlParams key))
        [] (SetOf (keys urlParams)))"

text \<open>
  \<^verbatim>\<open>stringifyQueryString\<close>, lines 63 to 76.  A callback that returns without a value
  returns \<^verbatim>\<open>undefined\<close>, here \<open>None\<close>; \<^verbatim>\<open>flatMap\<close> flattens the arrays the callback returns,
  one level, and keeps every other result as one element, \<^verbatim>\<open>undefined\<close> included;
  \<^verbatim>\<open>join\<close> writes an \<^verbatim>\<open>undefined\<close> element as the empty string.
\<close>

definition bind :: "exn + 'a \<Rightarrow> ('a \<Rightarrow> exn + 'b) \<Rightarrow> exn + 'b" where
  "bind r f = (case r of Inl e \<Rightarrow> Inl e | Inr x \<Rightarrow> f x)"

fun mapE :: "('a \<Rightarrow> exn + 'b) \<Rightarrow> 'a list \<Rightarrow> exn + 'b list" where
  "mapE f [] = Inr []"
| "mapE f (x # xs) = bind (f x) (\<lambda>y. bind (mapE f xs) (\<lambda>ys. Inr (y # ys)))"

definition pair :: "'n numerics \<Rightarrow> string \<Rightarrow> 'n jsval \<Rightarrow> exn + string option" where
  "pair N key item =
     (if nullish item then Inr None
      else bind (encodeURIComponent key) (\<lambda>k.
           bind (encodeURIComponent (ToString N item)) (\<lambda>v.
           Inr (Some (k @ ''='' @ v)))))"

definition entryPairs :: "'n numerics \<Rightarrow> string \<times> 'n jsval \<Rightarrow> exn + string option list" where
  "entryPairs N entry =
     (case entry of
        (key, Arr items) \<Rightarrow> mapE (pair N key) items
      | (key, v) \<Rightarrow> bind (pair N key v) (\<lambda>p. Inr [p]))"

definition stringifyQueryString :: "'n numerics \<Rightarrow> 'n obj \<Rightarrow> exn + string" where
  "stringifyQueryString N ob =
     bind (mapE (entryPairs N) ob) (\<lambda>pss.
     Inr (join ''&'' (map (\<lambda>p. case p of None \<Rightarrow> [] | Some s \<Rightarrow> s) (concat pss))))"

text \<open>\<^verbatim>\<open>QueryString\<close>, lines 9 to 12, and \<^verbatim>\<open>createQueryString\<close>, lines 78 to 84.\<close>

record 'n QueryString =
  parse :: "string \<Rightarrow> exn + 'n obj"
  stringify :: "'n obj \<Rightarrow> exn + string"

definition createQueryString :: "'n numerics \<Rightarrow> 'n obj \<Rightarrow> 'n QueryString" where
  "createQueryString N initialValue =
     \<lparr> parse = (\<lambda>searchParams. Inr (parseQueryString N searchParams initialValue)),
       stringify = stringifyQueryString N \<rparr>"

section \<open>The hook\<close>

text \<open>
  \<^verbatim>\<open>window.location.href\<close> is given by what \<^verbatim>\<open>new URL\<close> makes of it: either it raises,
  or it yields a URL with a path and a query (the part after \<^verbatim>\<open>?\<close>).
\<close>

datatype location =
    NotAUrl
  | Url string string

text \<open>\<^verbatim>\<open>isValidUrl\<close>, lines 177 to 184.\<close>

fun isValidUrl :: "location \<Rightarrow> bool" where
  "isValidUrl NotAUrl = False"
| "isValidUrl (Url path q) = True"

text \<open>
  What the hook reads and changes: the React state cell, the window (\<open>None\<close> where
  \<^verbatim>\<open>typeof window\<close> is \<^verbatim>\<open>"undefined"\<close>), and the calls it has made so far to
  \<^verbatim>\<open>onValueChange\<close>, to \<^verbatim>\<open>onPathnameChange\<close> and to \<^verbatim>\<open>window.history.pushState\<close>, each with
  its argument, oldest first.
\<close>

record 'n world =
  state :: "'n obj"
  window :: "location option"
  valueChanges :: "'n obj list"
  pathnameChanges :: "string list"
  pushed :: "string list"

text \<open>
  \<^verbatim>\<open>UseQueryStringStateOptions\<close>, lines 14 to 19, with the hook's first argument.  The two
  callbacks are the caller's; an option records whether one was passed.
\<close>

record 'n options =
  initialValue :: "'n obj"
  onValueChange :: bool
  onPathnameChange :: bool
  queryString :: "'n QueryString"
  isSyncPathname :: bool

text \<open>The defaults of lines 91 and 92, with no callback.\<close>

definition defaultOptions :: "'n numerics \<Rightarrow> 'n obj \<Rightarrow> 'n options" where
  "defaultOptions N initial =
     \<lparr> initialValue = initial, onValueChange = False, onPathnameChange = False,
       queryString = createQueryString N initial, isSyncPathname = True \<rparr>"

text \<open>
  The loop of lines 102 to 106.  The iterator of \<^verbatim>\<open>url.searchParams.keys()\<close> holds an
  index into the list of pairs and reads the list again at each step, so a \<^verbatim>\<open>delete\<close>
  in the body changes the list under it.
\<close>

function deleteForeign :: "'n obj \<Rightarrow> nat \<Rightarrow> params \<Rightarrow> params" where
  "deleteForeign initial i ps =
     (if i < length ps
      then let k = fst (ps ! i)
           in deleteForeign initial (Suc i) (if \<not> hasKey k initial then delete k ps else ps)
      else ps)"
  by pat_completeness auto
termination
proof (relation "measure (\<lambda>(initial, i, ps). length ps - i)")
  fix initial :: "'n obj" and i :: nat and ps :: params and k :: string
  assume "i < length ps"
  moreover have "length (delete k ps) \<le> length ps"
    by (simp add: delete_def)
  ultimately show "((initial, Suc i, if \<not> hasKey k initial then delete k ps else ps),
      (initial, i, ps)) \<in> measure (\<lambda>(initial, i, ps). length ps - i)"
    by auto
qed simp

declare deleteForeign.simps [simp del]

text \<open>
  \<^verbatim>\<open>getInitialStateWithQueryString\<close>, lines 95 to 116.  The only step of the
  \<^verbatim>\<open>try\<close> block that can raise is the codec's \<^verbatim>\<open>parse\<close>; the \<^verbatim>\<open>catch\<close> returns the
  defaults.  (What it prints on the console is not recorded.)
\<close>

definition getInitialStateWithQueryString :: "'n options \<Rightarrow> 'n world \<Rightarrow> 'n obj" where
  "getInitialStateWithQueryString opts w =
     (case window w of
        None \<Rightarrow> initialValue opts
      | Some NotAUrl \<Rightarrow> initialValue opts
      | Some (Url path q) \<Rightarrow>
          (let searchParams = deleteForeign (initialValue opts) 0 (urlencodedParse q) in
           case parse (queryString opts) (toString searchParams) of
             Inl error \<Rightarrow> initialValue opts
           | Inr urlParsed \<Rightarrow> Object_assign (Object_assign [] (initialValue opts)) urlParsed))"

text \<open>The initial state, lines 118 to 122.\<close>

definition useState_initial :: "'n options \<Rightarrow> 'n world \<Rightarrow> 'n obj" where
  "useState_initial opts w =
     (if isSyncPathname opts then getInitialStateWithQueryString opts w else initialValue opts)"

definition mount :: "'n options \<Rightarrow> location option \<Rightarrow> 'n world" where
  "mount opts win =
     (let w = \<lparr> state = [], window = win, valueChanges = [], pathnameChanges = [], pushed = [] \<rparr>
      in w\<lparr>state := useState_initial opts w\<rparr>)"

text \<open>
  What \<^verbatim>\<open>setState\<close> is called with: the string \<^verbatim>\<open>"RESET"\<close>, a function of the state, or a
  state.
\<close>

datatype 'n action =
    RESET
  | Updater "'n obj \<Rightarrow> 'n obj"
  | Value "'n obj"

text \<open>
  \<^verbatim>\<open>setState\<close>, lines 124 to 150.  Nothing in it catches: where the codec raises, the
  exception leaves \<^verbatim>\<open>setState\<close> after the state cell is set and \<^verbatim>\<open>onValueChange\<close> has run.
  The result is the exception, if any, with the world as the call leaves it.  After
  \<^verbatim>\<open>pushState\<close> the location has the new query.
\<close>

definition setState :: "'n options \<Rightarrow> 'n action \<Rightarrow> 'n world \<Rightarrow> exn option \<times> 'n world" where
  "setState opts val w =
     (let payload =
            (case val of
               RESET \<Rightarrow> initialValue opts
             | Updater f \<Rightarrow> f (state w)
             | Value v \<Rightarrow> v);
          w1 = w\<lparr>state := payload\<rparr>;
          w2 = (if onValueChange opts then w1\<lparr>valueChanges := valueChanges w1 @ [payload]\<rparr>
                else w1)
      in case window w2 of
           Some (Url path q) \<Rightarrow>
             (case bind (parse (queryString opts) (toString (urlencodedParse q))) (\<lambda>parsed.
                   stringify (queryString opts) (Object_assign parsed payload)) of
                Inl error \<Rightarrow> (Some error, w2)
              | Inr searchParams \<Rightarrow>
                  (let resultUrl = path @ ''?'' @ searchParams in
                   if onPathnameChange opts
                   then (None, w2\<lparr>pathnameChanges := pathnameChanges w2 @ [resultUrl]\<rparr>)
                   else (None, w2\<lparr>pushed := pushed w2 @ [resultUrl],
                                   window := Some (Url path searchParams)\<rparr>)))
         | _ \<Rightarrow> (None, w2))"

text \<open>\<^verbatim>\<open>handlePopState\<close>, lines 157 to 161.\<close>

definition handlePopState :: "'n options \<Rightarrow> 'n world \<Rightarrow> 'n world" where
  "handlePopState opts w =
     (if isSyncPathname opts then w\<lparr>state := getInitialStateWithQueryString opts w\<rparr> else w)"

text \<open>
  A back or forward navigation: the browser moves to the location of the history entry
  and then calls the listener that lines 152 to 165 registered, if there is a window to
  register it on.
\<close>

definition popstate :: "'n options \<Rightarrow> location \<Rightarrow> 'n world \<Rightarrow> 'n world" where
  "popstate opts loc w =
     (case window w of
        None \<Rightarrow> w
      | Some old \<Rightarrow> handlePopState opts (w\<lparr>window := Some loc\<rparr>))"

text \<open>
  \<^verbatim>\<open>reset\<close>, lines 167 to 172.  \<^verbatim>\<open>useCallback(f, [])\<close> is \<^verbatim>\<open>f\<close>, and \<^verbatim>\<open>f\<close> is
  \<^verbatim>\<open>() => () => { setState(RESET); }\<close>: a call of \<^verbatim>\<open>reset\<close> evaluates the outer arrow, whose
  body is the inner arrow.  So the call returns that function and runs nothing.
\<close>

definition reset :: "'n options \<Rightarrow> 'n world \<Rightarrow> ('n world \<Rightarrow> exn option \<times> 'n world) \<times> 'n world" where
  "reset opts w = (setState opts RESET, w)"

section \<open>Whole numbers, for the scenarios\<close>

text \<open>
  The theorems below that speak of all inputs hold for every choice of the three number
  primitives.  The scenarios of the specification are run with whole numbers written in
  decimal: \<open>None\<close> is \<^verbatim>\<open>NaN\<close>, and \<^verbatim>\<open>Number\<close> reads an optional sign and digits between
  white space (the empty string as 0, as the browser does).  On a literal with a
  fraction, an exponent or a radix prefix it answers \<^verbatim>\<open>NaN\<close> where the browser has a
  value; no scenario uses one.
\<close>

function showNat :: "nat \<Rightarrow> string" where
  "showNat n =
     (if n < 10 then [char_of (48 + n)] else showNat (n div 10) @ [char_of (48 + n mod 10)])"
  by pat_completeness auto
termination
  by (relation "measure id") auto

declare showNat.simps [simp del]

definition wholeNumbers :: "int option numerics" where
  "wholeNumbers =
     \<lparr> Number = (\<lambda>s.
         case trim s of
           [] \<Rightarrow> Some 0
         | c # t \<Rightarrow>
             if c = CHR ''-'' then map_option (\<lambda>n. - int n) (readNat t)
             else if c = CHR ''+'' then map_option int (readNat t)
             else map_option int (readNat (c # t))),
       isFinite = (\<lambda>n. n \<noteq> None),
       NumberToString = (\<lambda>n.
         case n of
           None \<Rightarrow> ''NaN''
         | Some i \<Rightarrow> if i < 0 then CHR ''-'' # showNat (nat (- i)) else showNat (nat i)) \<rparr>"

section \<open>The round trip, in the words of the specification\<close>

text \<open>
  The specification speaks of a state whose values are scalar strings, scalar numbers or
  arrays of such scalars.  A scalar is \<open>plain\<close> when its string form is text.
\<close>

fun scalar :: "'n jsval \<Rightarrow> bool" where
  "scalar (Str s) = True"
| "scalar (Num n) = True"
| "scalar v = False"

definition plain :: "'n numerics \<Rightarrow> 'n jsval \<Rightarrow> bool" where
  "plain N v = (scalar v \<and> utf8Text (ToString N v))"

text \<open>
  The schema gives a name the type number when the default has a number for it.
\<close>

definition numericDefault :: "'n obj \<Rightarrow> string \<Rightarrow> bool" where
  "numericDefault initial k = typeof_number (getProp initial k)"

text \<open>
  ``Reproduces the state up to numeric/string coercion consistent with the schema's
  default types.''  A scalar is reproduced by itself; where the schema says number, also
  by the finite number it stands for (a string stands for \<^verbatim>\<open>Number\<close> of it); where the
  schema does not say number, also by its string form.  An array is reproduced by an
  array of the same length, each element by itself or by its string form.
\<close>

definition asNumber :: "'n numerics \<Rightarrow> 'n jsval \<Rightarrow> 'n" where
  "asNumber N v = (case v of Num n \<Rightarrow> n | _ \<Rightarrow> Number N (ToString N v))"

definition reproducesScalar :: "'n numerics \<Rightarrow> bool \<Rightarrow> 'n jsval \<Rightarrow> 'n jsval \<Rightarrow> bool" where
  "reproducesScalar N numeric v v' =
     (scalar v \<and>
      (v' = v \<or>
       (if numeric then isFinite N (asNumber N v) \<and> v' = Num (asNumber N v)
        else v' = Str (ToString N v))))"

definition reproducesElement :: "'n numerics \<Rightarrow> 'n jsval \<Rightarrow> 'n jsval \<Rightarrow> bool" where
  "reproducesElement N x y = (scalar x \<and> (y = x \<or> y = Str (ToString N x)))"

definition reproduces :: "'n numerics \<Rightarrow> bool \<Rightarrow> 'n jsval \<Rightarrow> 'n jsval \<Rightarrow> bool" where
  "reproduces N numeric v v' =
     (case v of
        Arr xs \<Rightarrow> (case v' of Arr ys \<Rightarrow> list_all2 (reproducesElement N) xs ys | _ \<Rightarrow> False)
      | _ \<Rightarrow> reproducesScalar N numeric v v')"

text \<open>
  A number is \<open>exact\<close> when it is finite and the string written for it is read back as
  the same number.  In the browser all finite numbers are; \<^verbatim>\<open>NaN\<close> and the infinities
  are not.
\<close>

fun exact :: "'n numerics \<Rightarrow> 'n jsval \<Rightarrow> bool" where
  "exact N (Num n) =
     (isFinite N n \<and> trim (NumberToString N n) \<noteq> [] \<and> Number N (NumberToString N n) = n)"
| "exact N v = True"

text \<open>
  The entries for which the round trip is proved below: the name is text and is not
  \<^verbatim>\<open>__proto__\<close>; the value is an array of two or more plain scalars, or a plain scalar
  that is exact where the schema says number.
\<close>

definition roundTrips :: "'n numerics \<Rightarrow> 'n obj \<Rightarrow> string \<times> 'n jsval \<Rightarrow> bool" where
  "roundTrips N initial entry =
     (utf8Text (fst entry) \<and> fst entry \<noteq> ''__proto__'' \<and>
      (case snd entry of
         Arr xs \<Rightarrow> 2 \<le> length xs \<and> list_all (plain N) xs
       | v \<Rightarrow> plain N v \<and> (if numericDefault initial (fst entry) then exact N v else True)))"

section \<open>Notions used in the proofs\<close>

text \<open>
  Both encoders of the platform, the one of \<^verbatim>\<open>encodeURIComponent\<close> and the one of
  \<^verbatim>\<open>URLSearchParams.toString\<close>, write a byte as itself (never one of \<^verbatim>\<open>% + & = ?\<close>), as
  \<^verbatim>\<open>%XX\<close>, or a space as \<^verbatim>\<open>+\<close>.
\<close>

definition escaping :: "(char \<Rightarrow> string) \<Rightarrow> bool" where
  "escaping e =
     (\<forall>c. (e c = [c] \<and> c \<notin> set ''%+&=?'') \<or> e c = percentByte c \<or> (c = CHR '' '' \<and> e c = ''+''))"

definition escapedPair :: "(char \<Rightarrow> string) \<Rightarrow> string \<times> string \<Rightarrow> string" where
  "escapedPair e p = concat (map e (fst p)) @ ''='' @ concat (map e (snd p))"

abbreviation uriByte :: "char \<Rightarrow> string" where
  "uriByte \<equiv> (\<lambda>c. if c \<in> uriUnreserved then [c] else percentByte c)"

text \<open>
  The value that \<^verbatim>\<open>parseQueryString\<close> builds, under the defaults \<open>initial\<close>, from what
  \<^verbatim>\<open>stringifyQueryString\<close> wrote for the value \<open>v\<close> of the name \<open>k\<close>.
\<close>

definition coerced :: "'n numerics \<Rightarrow> 'n obj \<Rightarrow> string \<Rightarrow> 'n jsval \<Rightarrow> 'n jsval" where
  "coerced N initial k v =
     (case v of
        Arr xs \<Rightarrow> Arr (map (\<lambda>x. Str (ToString N x)) xs)
      | _ \<Rightarrow>
          if hasKey k initial \<and> typeof_number (getProp initial k)
          then toNumberable N (Str (ToString N v))
          else Str (ToString N v))"

text \<open>
  The name-value pairs that \<^verbatim>\<open>stringifyQueryString\<close> writes for an object with no
  \<^verbatim>\<open>null\<close> in it, before they are encoded.
\<close>

definition texts :: "'n numerics \<Rightarrow> 'n jsval \<Rightarrow> string list" where
  "texts N v = (case v of Arr xs \<Rightarrow> map (ToString N) xs | _ \<Rightarrow> [ToString N v])"

definition flatten :: "'n numerics \<Rightarrow> 'n obj \<Rightarrow> params" where
  "flatten N ob = concat (map (\<lambda>(k, v). map (Pair k) (texts N v)) ob)"

definition entryOk :: "'n numerics \<Rightarrow> string \<times> 'n jsval \<Rightarrow> bool" where
  "entryOk N entry =
     (utf8Text (fst entry) \<and>
      (case snd entry of Arr xs \<Rightarrow> list_all (plain N) xs | v \<Rightarrow> plain N v))"

section \<open>Facts about objects and the codec\<close>

lemma ownKeys_replaceProp: "ownKeys (replaceProp ob k v) = ownKeys ob"
  by (induction ob) (auto simp: ownKeys_def)

lemma map_of_replaceProp:
  "k \<in> set (ownKeys ob) \<Longrightarrow> map_of (replaceProp ob k v) = (map_of ob)(k \<mapsto> v)"
proof (induction ob)
  case Nil
  then show ?case by (simp add: ownKeys_def)
next
  case (Cons entry ob)
  obtain k' v' where entry: "entry = (k', v')" by (cases entry)
  show ?case
  proof (cases "k' = k")
    case True
    with entry show ?thesis by (simp add: fun_eq_iff)
  next
    case False
    with Cons.prems entry have "k \<in> set (ownKeys ob)"
      by (simp add: ownKeys_def)
    from Cons.IH [OF this] False entry show ?thesis
      by (simp add: fun_eq_iff)
  qed
qed

lemma set_insertProp: "set (insertProp ob k v) = insert (k, v) (set ob)"
  by (induction ob) (auto split: if_splits)

lemma keys_insertProp: "set (ownKeys (insertProp ob k v)) = insert k (set (ownKeys ob))"
  by (simp add: ownKeys_def set_insertProp)

lemma distinct_insertProp:
  "k \<notin> set (ownKeys ob) \<Longrightarrow> distinct (ownKeys ob) \<Longrightarrow> distinct (ownKeys (insertProp ob k v))"
proof (induction ob)
  case Nil
  show ?case by (simp add: ownKeys_def)
next
  case (Cons entry ob)
  obtain k' v' where entry: "entry = (k', v')" by (cases entry)
  from Cons.prems entry have fresh: "k \<noteq> k'" "k \<notin> set (ownKeys ob)"
    and rest: "k' \<notin> set (ownKeys ob)" "distinct (ownKeys ob)"
    by (auto simp: ownKeys_def)
  from Cons.IH [OF fresh(2) rest(2)] keys_insertProp [of ob k v] fresh rest entry Cons.prems
  show ?case
    by (auto simp: ownKeys_def)
qed

lemma map_of_insertProp:
  assumes "k \<notin> set (ownKeys ob)" and "distinct (ownKeys ob)"
  shows "map_of (insertProp ob k v) = (map_of ob)(k \<mapsto> v)"
proof (rule ext)
  fix k'
  have d: "distinct (map fst (insertProp ob k v))"
    using distinct_insertProp [OF assms] by (simp add: ownKeys_def)
  show "map_of (insertProp ob k v) k' = ((map_of ob)(k \<mapsto> v)) k'"
  proof (cases "k' = k")
    case True
    have "(k, v) \<in> set (insertProp ob k v)"
      by (simp add: set_insertProp)
    with d True show ?thesis
      by simp
  next
    case False
    show ?thesis
    proof (cases "map_of ob k'")
      case None
      then have "k' \<notin> fst ` set ob"
        by (simp add: map_of_eq_None_iff)
      with False have "k' \<notin> fst ` set (insertProp ob k v)"
        by (auto simp: set_insertProp)
      then have "map_of (insertProp ob k v) k' = None"
        by (simp add: map_of_eq_None_iff)
      with None False show ?thesis by simp
    next
      case (Some v')
      then have "(k', v') \<in> set ob"
        by (rule map_of_SomeD)
      then have "(k', v') \<in> set (insertProp ob k v)"
        by (simp add: set_insertProp)
      with d have "map_of (insertProp ob k v) k' = Some v'"
        by simp
      with Some False show ?thesis by simp
    qed
  qed
qed

lemma keys_setProp:
  "set (ownKeys (setProp ob k v)) =
     (if k \<notin> set (ownKeys ob) \<and> k = ''__proto__'' then set (ownKeys ob)
      else insert k (set (ownKeys ob)))"
  by (auto simp: setProp_def ownKeys_replaceProp keys_insertProp)

lemma distinct_setProp: "distinct (ownKeys ob) \<Longrightarrow> distinct (ownKeys (setProp ob k v))"
  by (simp add: setProp_def ownKeys_replaceProp distinct_insertProp)

lemma map_of_setProp:
  "distinct (ownKeys ob) \<Longrightarrow>
   map_of (setProp ob k v) =
     (if k \<notin> set (ownKeys ob) \<and> k = ''__proto__'' then map_of ob else (map_of ob)(k \<mapsto> v))"
  by (cases "k \<in> set (ownKeys ob)")
    (simp_all add: setProp_def map_of_replaceProp map_of_insertProp)

lemma entry_iff_map_of:
  "distinct (ownKeys ob) \<Longrightarrow> ((k, v) \<in> set ob) = (map_of ob k = Some v)"
  by (simp add: ownKeys_def)

lemma keys_iff_map_of: "(k \<in> set (ownKeys ob)) = (map_of ob k \<noteq> None)"
  by (simp add: ownKeys_def map_of_eq_None_iff)

lemma foldl_setProp:
  "distinct ks \<Longrightarrow> distinct (ownKeys acc) \<Longrightarrow> set ks \<inter> set (ownKeys acc) = {} \<Longrightarrow>
   distinct (ownKeys (foldl (\<lambda>ob k. setProp ob k (f k)) acc ks)) \<and>
   map_of (foldl (\<lambda>ob k. setProp ob k (f k)) acc ks) =
     (\<lambda>k. if k \<in> set ks \<and> k \<noteq> ''__proto__'' then Some (f k) else map_of acc k)"
proof (induction ks arbitrary: acc)
  case Nil
  then show ?case by simp
next
  case (Cons k ks)
  let ?acc = "setProp acc k (f k)"
  from Cons.prems have fresh: "k \<notin> set (ownKeys acc)" and k: "k \<notin> set ks"
    and ks: "distinct ks" "set ks \<inter> set (ownKeys acc) = {}"
    by auto
  have d: "distinct (ownKeys ?acc)"
    using Cons.prems(2) by (rule distinct_setProp)
  from ks(2) k have "set ks \<inter> set (ownKeys ?acc) = {}"
    by (auto simp: keys_setProp)
  from Cons.IH [OF ks(1) d this]
  have IH: "distinct (ownKeys (foldl (\<lambda>ob k. setProp ob k (f k)) ?acc ks))"
    "map_of (foldl (\<lambda>ob k. setProp ob k (f k)) ?acc ks) =
       (\<lambda>k'. if k' \<in> set ks \<and> k' \<noteq> ''__proto__'' then Some (f k') else map_of ?acc k')"
    by simp_all
  have "map_of ?acc = (if k = ''__proto__'' then map_of acc else (map_of acc)(k \<mapsto> f k))"
    using fresh Cons.prems(2) by (simp add: map_of_setProp)
  with IH k show ?case
    by (auto simp: fun_eq_iff)
qed

lemma SetOf_step:
  "distinct seen \<Longrightarrow>
   distinct (foldl (\<lambda>seen x. if x \<in> set seen then seen else seen @ [x]) seen xs) \<and>
   set (foldl (\<lambda>seen x. if x \<in> set seen then seen else seen @ [x]) seen xs) = set seen \<union> set xs"
  by (induction xs arbitrary: seen) auto

lemma distinct_SetOf: "distinct (SetOf xs)"
  using SetOf_step [of "[]" xs] by (simp add: SetOf_def)

lemma set_SetOf: "set (SetOf xs) = set xs"
  using SetOf_step [of "[]" xs] by (simp add: SetOf_def)

lemma parsed:
  "distinct (ownKeys (parseQueryString N s initial)) \<and>
   map_of (parseQueryString N s initial) =
     (\<lambda>key. if key \<in> set (keys (URLSearchParams s)) \<and> key \<noteq> ''__proto__''
        then Some
          (if length (getAll (URLSearchParams s) key) > 1
           then Arr (map Str (getAll (URLSearchParams s) key))
           else if hasKey key initial \<and> typeof_number (getProp initial key)
           then toNumberable N (get (URLSearchParams s) key)
           else get (URLSearchParams s) key)
        else None)"
proof -
  let ?f = "\<lambda>key. if length (getAll (URLSearchParams s) key) > 1
           then Arr (map Str (getAll (URLSearchParams s) key))
           else if hasKey key initial \<and> typeof_number (getProp initial key)
           then toNumberable N (get (URLSearchParams s) key)
           else get (URLSearchParams s) key"
  have eq: "parseQueryString N s initial
      = foldl (\<lambda>ob k. setProp ob k (?f k)) [] (SetOf (keys (URLSearchParams s)))"
    by (simp add: parseQueryString_def Let_def)
  have pre: "distinct (SetOf (keys (URLSearchParams s)))" "distinct (ownKeys ([] :: 'a obj))"
    "set (SetOf (keys (URLSearchParams s))) \<inter> set (ownKeys ([] :: 'a obj)) = {}"
    by (simp_all add: distinct_SetOf ownKeys_def)
  from foldl_setProp [OF pre, of ?f] show ?thesis
    unfolding eq by (simp only: set_SetOf map_of.simps)
qed

lemma distinct_parsed: "distinct (ownKeys (parseQueryString N s initial))"
  using parsed [of N s initial] by simp

lemma getAll_keys: "getAll ps k \<noteq> [] \<Longrightarrow> k \<in> set (keys ps)"
  by (induction ps) (auto simp: getAll_def keys_def split: if_splits)

section \<open>Parsing\<close>

text \<open>
  Claim C5.  Whether \<^verbatim>\<open>parse\<close> turns a value into a number is decided by the type of the
  default, not by the value: \<^verbatim>\<open>"page=5"\<close> against the defaults \<^verbatim>\<open>{page: 1}\<close> gives
  \<^verbatim>\<open>{page: 5}\<close> with 5 a number, and against the defaults \<^verbatim>\<open>{page: "1"}\<close> it gives
  \<^verbatim>\<open>{page: "5"}\<close> with \<^verbatim>\<open>"5"\<close> a string.
\<close>

theorem parse_coercion_schema_directed:
  "parseQueryString wholeNumbers ''page=5'' [(''page'', Num (Some 1))]
     = [(''page'', Num (Some 5))] \<and>
   parseQueryString wholeNumbers ''page=5'' [(''page'', Str ''1'')]
     = [(''page'', Str ''5'')]"
  by code_simp




section \<open>Decoding what the encoders write\<close>

text \<open>
  What the decoder writes it reads back as it is, and it never writes an unpaired
  surrogate.
\<close>

lemma replacement_step:
  "utf8Step (CHR 0xEF) (CHR 0xBF # CHR 0xBD # X) = (replacement, X)"
  by (simp add: utf8Step_def inRange_def replacement_def)

lemma utf8Step_shape:
  "(inRange 0x00 0x7F a \<and> utf8Step a s = ([a], s)) \<or>
   (\<exists>b s1. s = b # s1 \<and> \<not> inRange 0x00 0x7F a \<and> inRange 0xC2 0xDF a \<and>
       inRange 0x80 0xBF b \<and> utf8Step a s = ([a, b], s1)) \<or>
   (\<exists>b c s2. s = b # c # s2 \<and> \<not> inRange 0x00 0x7F a \<and> \<not> inRange 0xC2 0xDF a \<and>
       inRange 0xE0 0xEF a \<and>
       inRange (if a = CHR 0xE0 then 0xA0 else 0x80) (if a = CHR 0xED then 0x9F else 0xBF) b \<and>
       inRange 0x80 0xBF c \<and> utf8Step a s = ([a, b, c], s2)) \<or>
   (\<exists>b c d s3. s = b # c # d # s3 \<and> \<not> inRange 0x00 0x7F a \<and> \<not> inRange 0xC2 0xDF a \<and>
       \<not> inRange 0xE0 0xEF a \<and> inRange 0xF0 0xF4 a \<and>
       inRange (if a = CHR 0xF0 then 0x90 else 0x80) (if a = CHR 0xF4 then 0x8F else 0xBF) b \<and>
       inRange 0x80 0xBF c \<and> inRange 0x80 0xBF d \<and> utf8Step a s = ([a, b, c, d], s3)) \<or>
   (\<exists>rest. utf8Step a s = (replacement, rest))"
  by (simp add: utf8Step_def split: list.split)

lemma utf8Decode_chunk:
  assumes "utf8Step a (t @ X) = (a # t, X)"
  shows "utf8Decode ((a # t) @ X) = (a # t) @ utf8Decode X"
  using assms by simp

lemma utf8Decode_replacement: "utf8Decode (replacement @ X) = replacement @ utf8Decode X"
  using replacement_step [of X] by (simp add: replacement_def)

lemma utf8Decode_idem: "utf8Decode (utf8Decode s) = utf8Decode s"
proof (induction s rule: utf8Decode.induct)
  case 1
  show ?case by simp
next
  case (2 a s)
  let ?rest = "snd (utf8Step a s)"
  have out: "utf8Decode (a # s) = fst (utf8Step a s) @ utf8Decode ?rest"
    by simp
  have "utf8Decode (fst (utf8Step a s) @ utf8Decode ?rest)
      = fst (utf8Step a s) @ utf8Decode (utf8Decode ?rest)"
    using utf8Step_shape [of a s]
  proof (elim disjE exE conjE)
    assume "inRange 0x00 0x7F a" "utf8Step a s = ([a], s)"
    then show ?thesis by (simp add: utf8Step_def)
  next
    fix b s1
    assume "\<not> inRange 0x00 0x7F a" "inRange 0xC2 0xDF a" "inRange 0x80 0xBF b"
      "utf8Step a s = ([a, b], s1)"
    then show ?thesis by (simp add: utf8Step_def)
  next
    fix b c s2
    assume "\<not> inRange 0x00 0x7F a" "\<not> inRange 0xC2 0xDF a" "inRange 0xE0 0xEF a"
      "inRange (if a = CHR 0xE0 then 0xA0 else 0x80) (if a = CHR 0xED then 0x9F else 0xBF) b"
      "inRange 0x80 0xBF c" "utf8Step a s = ([a, b, c], s2)"
    then show ?thesis by (simp add: utf8Step_def)
  next
    fix b c d s3
    assume "\<not> inRange 0x00 0x7F a" "\<not> inRange 0xC2 0xDF a" "\<not> inRange 0xE0 0xEF a"
      "inRange 0xF0 0xF4 a"
      "inRange (if a = CHR 0xF0 then 0x90 else 0x80) (if a = CHR 0xF4 then 0x8F else 0xBF) b"
      "inRange 0x80 0xBF c" "inRange 0x80 0xBF d" "utf8Step a s = ([a, b, c, d], s3)"
    then show ?thesis by (simp add: utf8Step_def)
  next
    fix rest
    assume "utf8Step a s = (replacement, rest)"
    then show ?thesis by (simp add: utf8Decode_replacement)
  qed
  with 2 out show ?case by simp
qed

lemma unpairedSurrogate_Cons:
  "unpairedSurrogate (a # r) =
     ((a = CHR 0xED \<and> (case r of [] \<Rightarrow> False | b # _ \<Rightarrow> (0xA0::nat) \<le> of_char b)) \<or>
      unpairedSurrogate r)"
  by (cases r) simp_all

lemma not_ED: "inRange lo hi c \<Longrightarrow> hi < 0xED \<Longrightarrow> c \<noteq> CHR 0xED"
  by (auto simp: inRange_def)

lemma utf8Decode_no_surrogate: "\<not> unpairedSurrogate (utf8Decode s)"
proof (induction s rule: utf8Decode.induct)
  case 1
  show ?case by simp
next
  case (2 a s)
  let ?rest = "snd (utf8Step a s)"
  have out: "utf8Decode (a # s) = fst (utf8Step a s) @ utf8Decode ?rest"
    by simp
  have "unpairedSurrogate (fst (utf8Step a s) @ utf8Decode ?rest)
      = unpairedSurrogate (utf8Decode ?rest)"
    using utf8Step_shape [of a s]
  proof (elim disjE exE conjE)
    assume "inRange 0x00 0x7F a" "utf8Step a s = ([a], s)"
    then show ?thesis
      using not_ED [of 0 "0x7F" a] by (simp add: unpairedSurrogate_Cons del: unpairedSurrogate.simps)
  next
    fix b s1
    assume "\<not> inRange 0x00 0x7F a" "inRange 0xC2 0xDF a" "inRange 0x80 0xBF b"
      "utf8Step a s = ([a, b], s1)"
    then show ?thesis
      using not_ED [of "0xC2" "0xDF" a] not_ED [of "0x80" "0xBF" b]
      by (simp add: unpairedSurrogate_Cons del: unpairedSurrogate.simps)
  next
    fix b c s2
    assume "\<not> inRange 0x00 0x7F a" "\<not> inRange 0xC2 0xDF a" "inRange 0xE0 0xEF a"
      and b: "inRange (if a = CHR 0xE0 then 0xA0 else 0x80) (if a = CHR 0xED then 0x9F else 0xBF) b"
      and "inRange 0x80 0xBF c" "utf8Step a s = ([a, b, c], s2)"
    moreover from b have "a = CHR 0xED \<Longrightarrow> \<not> (0xA0::nat) \<le> of_char b"
      by (auto simp: inRange_def)
    moreover from b have "b \<noteq> CHR 0xED"
      by (auto simp: inRange_def split: if_splits)
    ultimately show ?thesis
      using not_ED [of "0x80" "0xBF" c]
      by (auto simp add: unpairedSurrogate_Cons simp del: unpairedSurrogate.simps)
  next
    fix b c d s3
    assume "\<not> inRange 0x00 0x7F a" "\<not> inRange 0xC2 0xDF a" "\<not> inRange 0xE0 0xEF a"
      and a: "inRange 0xF0 0xF4 a"
      and b: "inRange (if a = CHR 0xF0 then 0x90 else 0x80) (if a = CHR 0xF4 then 0x8F else 0xBF) b"
      and "inRange 0x80 0xBF c" "inRange 0x80 0xBF d" "utf8Step a s = ([a, b, c, d], s3)"
    moreover from a have "a \<noteq> CHR 0xED"
      by (auto simp: inRange_def)
    moreover from b have "b \<noteq> CHR 0xED"
      by (auto simp: inRange_def split: if_splits)
    ultimately show ?thesis
      using not_ED [of "0x80" "0xBF" c] not_ED [of "0x80" "0xBF" d]
      by (auto simp add: unpairedSurrogate_Cons simp del: unpairedSurrogate.simps)
  next
    fix rest
    assume "utf8Step a s = (replacement, rest)"
    then show ?thesis
      by (simp add: replacement_def unpairedSurrogate_Cons del: unpairedSurrogate.simps)
  qed
  with 2 out show ?case by simp
qed

lemma utf8Text_decode: "utf8Text (utf8Decode s)"
  by (simp add: utf8Text_def utf8Decode_idem)

lemma utf8Text_encodable: "utf8Text s \<Longrightarrow> \<not> unpairedSurrogate s"
  using utf8Decode_no_surrogate [of s] by (simp add: utf8Text_def)

lemma hexDigit_table:
  "list_all (\<lambda>n. hexValue (hexDigit n) = Some n \<and> hexDigit n \<notin> set ''%+&=?'') [0..<16]"
  by code_simp

lemma hexDigit_facts:
  assumes "n < 16"
  shows "hexValue (hexDigit n) = Some n" and "hexDigit n \<notin> set ''%+&=?''"
  using assms hexDigit_table by (simp_all add: list_all_iff)

lemma percentDecode_plain:
  "c \<noteq> CHR ''%'' \<Longrightarrow> percentDecode (c # r) = c # percentDecode r"
  by (cases r rule: percentDecode.cases) simp_all

lemma char_halves: "char_of ((of_char c :: nat) div 16 * 16 + of_char c mod 16) = c"
  by simp

lemma of_char_div16: "(of_char c :: nat) div 16 < 16"
proof -
  have "(of_char c :: nat) < 256" by simp
  then show ?thesis by arith
qed

lemma percentDecode_percentByte:
  "percentDecode (percentByte c @ r) = c # percentDecode r"
  using hexDigit_facts(1) [OF of_char_div16, of c]
    hexDigit_facts(1) [of "of_char c mod 16"]
  by (simp add: percentByte_def char_halves)

lemma plusToSpace_percentByte: "plusToSpace (percentByte c) = percentByte c"
  using hexDigit_facts(2) [OF of_char_div16, of c]
    hexDigit_facts(2) [of "of_char c mod 16"]
  by (simp add: percentByte_def plusToSpace_def)

lemma percentByte_clean: "d \<in> set ''&=?'' \<Longrightarrow> d \<notin> set (percentByte c)"
  using hexDigit_facts(2) [OF of_char_div16, of c]
    hexDigit_facts(2) [of "of_char c mod 16"]
  by (auto simp: percentByte_def)

lemma plusToSpace_append: "plusToSpace (a @ b) = plusToSpace a @ plusToSpace b"
  by (simp add: plusToSpace_def)

lemma plusToSpace_Cons:
  "plusToSpace (c # r) = (if c = CHR ''+'' then CHR '' '' else c) # plusToSpace r"
  by (simp add: plusToSpace_def)

lemma decode_escaped:
  assumes "escaping e"
  shows "percentDecode (plusToSpace (concat (map e s))) = s"
proof (induction s)
  case Nil
  show ?case by (simp add: plusToSpace_def)
next
  case (Cons c s)
  from assms consider
      (plain) "e c = [c]" "c \<notin> set ''%+&=?''"
    | (byte) "e c = percentByte c"
    | (plus) "c = CHR '' ''" "e c = ''+''"
    unfolding escaping_def by blast
  then show ?case
  proof cases
    case plain
    then have "c \<noteq> CHR ''+''" "c \<noteq> CHR ''%''"
      by auto
    with plain Cons.IH show ?thesis
      by (simp add: plusToSpace_Cons percentDecode_plain)
  next
    case byte
    with Cons.IH show ?thesis
      by (simp add: plusToSpace_append plusToSpace_percentByte percentDecode_percentByte)
  next
    case plus
    with Cons.IH show ?thesis
      by (simp add: plusToSpace_Cons percentDecode_plain)
  qed
qed

lemma escaped_clean:
  assumes "escaping e" and "d \<in> set ''&=?''"
  shows "d \<notin> set (concat (map e s))"
proof (induction s)
  case Nil
  show ?case by simp
next
  case (Cons c s)
  from assms(1) consider
      (plain) "e c = [c]" "c \<notin> set ''%+&=?''"
    | (byte) "e c = percentByte c"
    | (plus) "c = CHR '' ''" "e c = ''+''"
    unfolding escaping_def by blast
  then have "d \<notin> set (e c)"
  proof cases
    case plain
    with assms(2) show ?thesis by auto
  next
    case byte
    with assms(2) show ?thesis by (simp add: percentByte_clean del: set_simps)
  next
    case plus
    with assms(2) show ?thesis by auto
  qed
  with Cons.IH show ?case by simp
qed

lemma escaping_uri: "escaping (\<lambda>c. if c \<in> uriUnreserved then [c] else percentByte c)"
  by (auto simp: escaping_def uriUnreserved_def alphanumeric_def)

lemma escaping_form:
  "escaping (\<lambda>c. if c = CHR '' '' then ''+''
                 else if c \<in> alphanumeric \<union> set ''*-._'' then [c]
                 else percentByte c)"
  by (auto simp: escaping_def alphanumeric_def)

lemma splitOn_not_Nil: "splitOn d s \<noteq> []"
  by (induction s) (auto split: list.split)

lemma splitOn_clean: "d \<notin> set p \<Longrightarrow> splitOn d p = [p]"
  by (induction p) auto

lemma splitOn_piece: "d \<notin> set p \<Longrightarrow> splitOn d (p @ d # r) = p # splitOn d r"
  by (induction p) (auto split: list.split)

lemma join_Cons: "join sep (x # xs) = (if xs = [] then x else x @ sep @ join sep xs)"
  by (cases xs) simp_all

lemma splitOn_join:
  "ps \<noteq> [] \<Longrightarrow> (\<forall>p \<in> set ps. d \<notin> set p) \<Longrightarrow> splitOn d (join [d] ps) = ps"
proof (induction ps)
  case Nil
  then show ?case by simp
next
  case (Cons p ps)
  then show ?case
    by (cases "ps = []") (simp_all add: join_Cons splitOn_clean splitOn_piece)
qed

lemma set_join: "set (join sep ps) \<subseteq> set sep \<union> \<Union> (set ` set ps)"
  by (induction sep ps rule: join.induct) auto

lemma parsePiece_escaped:
  assumes "escaping e" and "utf8Text n" and "utf8Text v"
  shows "parsePiece (concat (map e n) @ ''='' @ concat (map e v)) = (n, v)"
proof -
  have clean: "CHR ''='' \<notin> set (concat (map e n))"
    using assms(1) by (rule escaped_clean) simp
  have "takeWhile (\<lambda>c. c \<noteq> CHR ''='') (concat (map e n) @ ''='' @ concat (map e v))
      = concat (map e n)"
    using clean by (simp add: takeWhile_append)
  moreover have "dropWhile (\<lambda>c. c \<noteq> CHR ''='') (concat (map e n) @ ''='' @ concat (map e v))
      = ''='' @ concat (map e v)"
    using clean by (simp add: dropWhile_append)
  ultimately show ?thesis
    using assms by (simp add: parsePiece_def Let_def decode_escaped utf8Text_def del: set_concat)
qed

lemma escapedPair_clean:
  assumes "escaping e" and "d \<in> set ''&?''"
  shows "d \<notin> set (escapedPair e p)"
proof -
  from assms(2) have d: "d \<in> set ''&=?''" "d \<noteq> CHR ''=''" by auto
  from escaped_clean [OF assms(1) d(1)] d(2) show ?thesis
    by (simp add: escapedPair_def del: set_concat)
qed

lemma urlencodedParse_escaped:
  assumes "escaping e" and "\<forall>p \<in> set ps. utf8Text (fst p) \<and> utf8Text (snd p)"
  shows "urlencodedParse (join ''&'' (map (escapedPair e) ps)) = ps"
proof (cases "ps = []")
  case True
  then show ?thesis by (simp add: urlencodedParse_def)
next
  case False
  have "\<forall>p \<in> set (map (escapedPair e) ps). CHR ''&'' \<notin> set p"
    using escapedPair_clean [OF assms(1), of "CHR ''&''"] by simp
  with False have "splitOn CHR ''&'' (join ''&'' (map (escapedPair e) ps)) = map (escapedPair e) ps"
    by (simp add: splitOn_join)
  moreover have "filter (\<lambda>piece. piece \<noteq> []) (map (escapedPair e) ps) = map (escapedPair e) ps"
    by (simp add: escapedPair_def)
  moreover have "map parsePiece (map (escapedPair e) ps) = ps"
    using parsePiece_escaped [OF assms(1)] assms(2)
    by (auto simp: escapedPair_def intro!: map_idI)
  ultimately show ?thesis
    by (simp add: urlencodedParse_def)
qed

lemma URLSearchParams_escaped:
  assumes "escaping e" and "\<forall>p \<in> set ps. utf8Text (fst p) \<and> utf8Text (snd p)"
  shows "URLSearchParams (join ''&'' (map (escapedPair e) ps)) = ps"
proof -
  have "CHR ''?'' \<notin> set (join ''&'' (map (escapedPair e) ps))"
    using set_join [of "''&''" "map (escapedPair e) ps"]
      escapedPair_clean [OF assms(1), of "CHR ''?''"] by auto
  then have "URLSearchParams (join ''&'' (map (escapedPair e) ps))
      = urlencodedParse (join ''&'' (map (escapedPair e) ps))"
    by (auto simp: URLSearchParams_def split: list.split)
  with urlencodedParse_escaped [OF assms] show ?thesis
    by simp
qed

lemma toString_escaped:
  "toString ps = join ''&'' (map (escapedPair (\<lambda>c. if c = CHR '' '' then ''+''
                 else if c \<in> alphanumeric \<union> set ''*-._'' then [c]
                 else percentByte c)) ps)"
  by (simp add: toString_def escapedPair_def formEscape_def fun_eq_iff
      arg_cong [where f = "\<lambda>f. join ''&'' (map f ps)"])

lemma URLSearchParams_toString:
  "\<forall>p \<in> set ps. utf8Text (fst p) \<and> utf8Text (snd p) \<Longrightarrow> URLSearchParams (toString ps) = ps"
  unfolding toString_escaped using escaping_form by (rule URLSearchParams_escaped)

lemma urlencodedParse_text:
  "\<forall>p \<in> set (urlencodedParse q). utf8Text (fst p) \<and> utf8Text (snd p)"
  by (auto simp: urlencodedParse_def parsePiece_def Let_def utf8Text_decode)

lemma plain_not_nullish: "plain N v \<Longrightarrow> \<not> nullish v"
  by (cases v) (simp_all add: plain_def)

lemma pair_plain:
  "utf8Text key \<Longrightarrow> plain N item \<Longrightarrow>
   pair N key item = Inr (Some (escapedPair uriByte (key, ToString N item)))"
  using plain_not_nullish [of N item] utf8Text_encodable [of key]
    utf8Text_encodable [of "ToString N item"]
  by (simp add: pair_def bind_def encodeURIComponent_def uriEscape_def escapedPair_def plain_def)

lemma mapE_Inr: "(\<forall>x \<in> set xs. f x = Inr (g x)) \<Longrightarrow> mapE f xs = Inr (map g xs)"
  by (induction xs) (simp_all add: bind_def)

lemma entryPairs_ok:
  assumes "entryOk N (k, v)"
  shows "entryPairs N (k, v) = Inr (map (\<lambda>t. Some (escapedPair uriByte (k, t))) (texts N v))"
proof (cases v)
  case (Arr xs)
  with assms have "\<forall>x \<in> set xs. pair N k x = Inr (Some (escapedPair uriByte (k, ToString N x)))"
    by (simp add: entryOk_def list_all_iff pair_plain)
  then have "mapE (pair N k) xs = Inr (map (\<lambda>x. Some (escapedPair uriByte (k, ToString N x))) xs)"
    by (rule mapE_Inr)
  with Arr show ?thesis
    by (simp add: entryPairs_def texts_def comp_def)
qed (use assms in \<open>simp_all add: entryOk_def entryPairs_def texts_def pair_plain bind_def\<close>)

lemma stringify_flatten:
  assumes "\<forall>entry \<in> set ob. entryOk N entry"
  shows "stringifyQueryString N ob = Inr (join ''&'' (map (escapedPair uriByte) (flatten N ob)))"
proof -
  have "\<forall>entry \<in> set ob. entryPairs N entry
      = Inr (map (\<lambda>t. Some (escapedPair uriByte (fst entry, t))) (texts N (snd entry)))"
    using assms entryPairs_ok [of N] by auto
  then have "mapE (entryPairs N) ob
      = Inr (map (\<lambda>entry. map (\<lambda>t. Some (escapedPair uriByte (fst entry, t))) (texts N (snd entry))) ob)"
    by (rule mapE_Inr)
  moreover have "map (\<lambda>p. case p of None \<Rightarrow> [] | Some s \<Rightarrow> s)
      (concat (map (\<lambda>entry. map (\<lambda>t. Some (escapedPair uriByte (fst entry, t))) (texts N (snd entry))) ob))
      = map (escapedPair uriByte) (flatten N ob)"
    by (induction ob) (simp_all add: flatten_def comp_def case_prod_beta)
  ultimately show ?thesis
    by (simp add: stringifyQueryString_def bind_def)
qed

lemma flatten_text:
  assumes "\<forall>entry \<in> set ob. entryOk N entry"
  shows "\<forall>p \<in> set (flatten N ob). utf8Text (fst p) \<and> utf8Text (snd p)"
proof
  fix p assume "p \<in> set (flatten N ob)"
  then obtain k v t where mem: "(k, v) \<in> set ob" and t: "t \<in> set (texts N v)" and p: "p = (k, t)"
    by (auto simp: flatten_def)
  from assms mem have ok: "entryOk N (k, v)"
    by auto
  then have "utf8Text k"
    by (simp add: entryOk_def)
  moreover from ok t have "utf8Text t"
    by (cases v) (auto simp: entryOk_def texts_def plain_def list_all_iff)
  ultimately show "utf8Text (fst p) \<and> utf8Text (snd p)"
    using p by simp
qed

lemma parse_stringify_params:
  assumes "\<forall>entry \<in> set ob. entryOk N entry"
  shows "\<exists>qs. stringifyQueryString N ob = Inr qs \<and> URLSearchParams qs = flatten N ob"
  using stringify_flatten [OF assms] URLSearchParams_escaped [OF escaping_uri flatten_text [OF assms]]
  by simp

lemma getAll_append: "getAll (a @ b) k = getAll a k @ getAll b k"
  by (simp add: getAll_def)

lemma getAll_Nil: "getAll [] k = []"
  by (simp add: getAll_def)

lemma getAll_Pair: "getAll (map (Pair k) ts) k' = (if k = k' then ts else [])"
  by (cases "k = k'") (simp_all add: getAll_def filter_map comp_def)

lemma getAll_flatten_absent: "k \<notin> set (ownKeys ob) \<Longrightarrow> getAll (flatten N ob) k = []"
  by (induction ob) (auto simp: flatten_def ownKeys_def getAll_append getAll_Pair getAll_Nil)

lemma getAll_flatten:
  "distinct (ownKeys ob) \<Longrightarrow> (k, v) \<in> set ob \<Longrightarrow> getAll (flatten N ob) k = texts N v"
proof (induction ob)
  case Nil
  then show ?case by simp
next
  case (Cons entry ob)
  obtain k' v' where entry: "entry = (k', v')" by (cases entry)
  have flat: "flatten N (entry # ob) = map (Pair k') (texts N v') @ flatten N ob"
    by (simp add: flatten_def entry)
  show ?case
  proof (cases "(k, v) = entry")
    case True
    with Cons.prems entry have "k \<notin> set (ownKeys ob)"
      by (simp add: ownKeys_def)
    with True entry flat show ?thesis
      by (simp add: getAll_append getAll_Pair getAll_flatten_absent)
  next
    case False
    with Cons.prems have mem: "(k, v) \<in> set ob" by simp
    then have "k \<in> set (ownKeys ob)"
      by (force simp: ownKeys_def)
    with Cons.prems entry have "k' \<noteq> k"
      by (auto simp: ownKeys_def)
    with Cons.IH Cons.prems mem flat show ?thesis
      by (simp add: getAll_append getAll_Pair ownKeys_def)
  qed
qed

lemma SetOf_seen:
  "set xs \<subseteq> set seen \<Longrightarrow>
   foldl (\<lambda>seen x. if x \<in> set seen then seen else seen @ [x]) seen xs = seen"
  by (induction xs) simp_all

lemma SetOf_group:
  assumes "ts \<noteq> []" and "k \<notin> set seen"
  shows "foldl (\<lambda>seen x. if x \<in> set seen then seen else seen @ [x]) seen
           (keys (map (Pair k) ts)) = seen @ [k]"
proof -
  from assms(1) obtain t ts' where ts: "ts = t # ts'" by (cases ts) auto
  have "set (keys (map (Pair k) ts')) \<subseteq> set (seen @ [k])"
    by (auto simp: keys_def)
  then have "foldl (\<lambda>seen x. if x \<in> set seen then seen else seen @ [x]) (seen @ [k])
      (keys (map (Pair k) ts')) = seen @ [k]"
    by (rule SetOf_seen)
  with assms(2) ts show ?thesis
    by (simp add: keys_def)
qed

lemma keys_append: "keys (a @ b) = keys a @ keys b"
  by (simp add: keys_def)

lemma SetOf_flatten_step:
  "distinct (ownKeys ob) \<Longrightarrow> set (ownKeys ob) \<inter> set seen = {} \<Longrightarrow>
   (\<forall>entry \<in> set ob. texts N (snd entry) \<noteq> []) \<Longrightarrow>
   foldl (\<lambda>seen x. if x \<in> set seen then seen else seen @ [x]) seen (keys (flatten N ob))
     = seen @ ownKeys ob"
proof (induction ob arbitrary: seen)
  case Nil
  then show ?case by (simp add: flatten_def keys_def ownKeys_def)
next
  case (Cons entry ob)
  obtain k v where entry: "entry = (k, v)" by (cases entry)
  have flat: "flatten N (entry # ob) = map (Pair k) (texts N v) @ flatten N ob"
    by (simp add: flatten_def entry)
  from Cons.prems entry have fresh: "k \<notin> set seen" and nonempty: "texts N v \<noteq> []"
    by (auto simp: ownKeys_def)
  from Cons.prems entry have "distinct (ownKeys ob)" "set (ownKeys ob) \<inter> set (seen @ [k]) = {}"
    "\<forall>entry \<in> set ob. texts N (snd entry) \<noteq> []"
    by (auto simp: ownKeys_def)
  then have "foldl (\<lambda>seen x. if x \<in> set seen then seen else seen @ [x]) (seen @ [k])
      (keys (flatten N ob)) = (seen @ [k]) @ ownKeys ob"
    by (rule Cons.IH)
  with SetOf_group [OF nonempty fresh] show ?case
    unfolding flat keys_append by (simp add: entry ownKeys_def)
qed

lemma SetOf_flatten:
  "distinct (ownKeys ob) \<Longrightarrow> (\<forall>entry \<in> set ob. texts N (snd entry) \<noteq> []) \<Longrightarrow>
   SetOf (keys (flatten N ob)) = ownKeys ob"
  using SetOf_flatten_step [of ob "[]" N] by (simp add: SetOf_def)

section \<open>The round trip\<close>

lemma numeric_condition:
  "(hasKey k initial \<and> typeof_number (getProp initial k)) = numericDefault initial k"
proof -
  have "typeof_number (getProp initial k) \<Longrightarrow> k \<in> set (ownKeys initial)"
    by (cases "map_of initial k") (simp_all add: getProp_def keys_iff_map_of)
  then show ?thesis
    by (auto simp: numericDefault_def hasKey_def)
qed

lemma roundTrips_entryOk: "roundTrips N initial entry \<Longrightarrow> entryOk N entry"
  by (auto simp: roundTrips_def entryOk_def split: jsval.splits)

lemma roundTrips_texts: "roundTrips N initial entry \<Longrightarrow> texts N (snd entry) \<noteq> []"
  by (auto simp: roundTrips_def texts_def split: jsval.splits)

lemma written_value:
  assumes "roundTrips N initial (k, v)"
  shows "(if 1 < length (texts N v) then Arr (map Str (texts N v))
          else if hasKey k initial \<and> typeof_number (getProp initial k)
          then toNumberable N (case texts N v of [] \<Rightarrow> Null | t # _ \<Rightarrow> Str t)
          else (case texts N v of [] \<Rightarrow> Null | t # _ \<Rightarrow> Str t))
         = coerced N initial k v"
  using assms
  by (cases v) (auto simp: roundTrips_def texts_def coerced_def plain_def comp_def)

lemma coerced_reproduces:
  assumes "roundTrips N initial (k, v)"
  shows "reproduces N (numericDefault initial k) v (coerced N initial k v)"
proof (cases v)
  case (Arr xs)
  with assms have "list_all (plain N) xs"
    by (simp add: roundTrips_def)
  then have "list_all2 (reproducesElement N) xs (map (\<lambda>x. Str (ToString N x)) xs)"
    by (induction xs) (simp_all add: reproducesElement_def plain_def)
  with Arr show ?thesis
    by (simp add: reproduces_def coerced_def)
next
  case (Str s)
  then show ?thesis
    by (simp add: reproduces_def reproducesScalar_def coerced_def numeric_condition asNumber_def)
next
  case (Num n)
  with assms have "numericDefault initial k \<Longrightarrow>
      isFinite N n \<and> trim (NumberToString N n) \<noteq> [] \<and> Number N (NumberToString N n) = n"
    by (simp add: roundTrips_def)
  with Num show ?thesis
    by (auto simp: reproduces_def reproducesScalar_def coerced_def numeric_condition asNumber_def)
qed (use assms in \<open>simp_all add: roundTrips_def plain_def\<close>)

lemma round_trip:
  assumes names: "distinct (ownKeys st)"
    and ok: "\<forall>entry \<in> set st. roundTrips N initial entry"
  shows "\<exists>qs. stringifyQueryString N st = Inr qs \<and>
     distinct (ownKeys (parseQueryString N qs initial)) \<and>
     set (ownKeys (parseQueryString N qs initial)) = set (ownKeys st) \<and>
     (\<forall>entry \<in> set st. map_of (parseQueryString N qs initial) (fst entry)
        = Some (coerced N initial (fst entry) (snd entry)))"
proof -
  from ok have "\<forall>entry \<in> set st. entryOk N entry"
    by (blast intro: roundTrips_entryOk)
  from parse_stringify_params [OF this] obtain qs
    where qs: "stringifyQueryString N st = Inr qs" "URLSearchParams qs = flatten N st"
    by blast
  from ok have "\<forall>entry \<in> set st. texts N (snd entry) \<noteq> []"
    using roundTrips_texts [of N initial] by blast
  with names have "SetOf (keys (flatten N st)) = ownKeys st"
    by (rule SetOf_flatten)
  then have written: "set (keys (flatten N st)) = set (ownKeys st)"
    using set_SetOf [of "keys (flatten N st)"] by simp
  from ok have proto: "''__proto__'' \<notin> set (ownKeys st)"
    by (auto simp: roundTrips_def ownKeys_def)
  have each: "\<forall>entry \<in> set st. map_of (parseQueryString N qs initial) (fst entry)
      = Some (coerced N initial (fst entry) (snd entry))"
  proof
    fix entry assume mem: "entry \<in> set st"
    obtain k v where entry: "entry = (k, v)" by (cases entry)
    from mem entry names have all: "getAll (flatten N st) k = texts N v"
      by (simp add: getAll_flatten)
    from mem entry have k: "k \<in> set (ownKeys st)"
      by (force simp: ownKeys_def)
    with proto have "k \<noteq> ''__proto__''" by auto
    with k have m: "map_of (parseQueryString N qs initial) k =
        Some (if length (getAll (flatten N st) k) > 1
           then Arr (map Str (getAll (flatten N st) k))
           else if hasKey k initial \<and> typeof_number (getProp initial k)
           then toNumberable N (get (flatten N st) k)
           else get (flatten N st) k)"
      by (simp add: parsed qs(2) written split del: if_split cong del: if_weak_cong)
    from mem entry ok have "roundTrips N initial (k, v)" by auto
    from written_value [OF this]
    show "map_of (parseQueryString N qs initial) (fst entry)
        = Some (coerced N initial (fst entry) (snd entry))"
      by (simp only: entry fst_conv snd_conv m all get_def)
  qed
  have "set (ownKeys (parseQueryString N qs initial)) = set (ownKeys st)"
    using proto by (auto simp: keys_iff_map_of parsed qs(2) written split: if_splits)
  with qs(1) each distinct_parsed [of N qs initial] show ?thesis
    by blast
qed

text \<open>
  Claim C3 says that \<^verbatim>\<open>parse\<close> of \<^verbatim>\<open>stringify\<close> of a state of scalars and arrays of
  scalars reproduces the state up to numeric/string coercion consistent with the
  schema.  Four states for which it does not:

  \<^item> \<^verbatim>\<open>{tags: ["a"]}\<close> is written as \<^verbatim>\<open>tags=a\<close> and read back as \<^verbatim>\<open>{tags: "a"}\<close>, a string
    where the state has an array: line 51 builds an array only for a name with more than
    one value;
  \<^item> \<^verbatim>\<open>{tags: []}\<close> is written as the empty string and read back as \<^verbatim>\<open>{}\<close>;
  \<^item> the state with the own names \<^verbatim>\<open>__proto__\<close> and \<^verbatim>\<open>a\<close> is written as
    \<^verbatim>\<open>__proto__=x&a=1\<close> and read back as \<^verbatim>\<open>{a: "1"}\<close>: the assignment of line 50 runs the
    setter of \<^verbatim>\<open>Object.prototype\<close> and stores nothing;
  \<^item> \<^verbatim>\<open>{page: NaN}\<close> under the defaults \<^verbatim>\<open>{page: 1}\<close> is written as \<^verbatim>\<open>page=NaN\<close> and read
    back as \<^verbatim>\<open>{page: "NaN"}\<close>, a string where state and schema have a number.
\<close>

theorem round_trip_counterexample:
  "stringifyQueryString wholeNumbers [(''tags'', Arr [Str ''a''])] = Inr ''tags=a'' \<and>
   parseQueryString wholeNumbers ''tags=a'' [(''tags'', Arr [Str ''a''])] = [(''tags'', Str ''a'')] \<and>
   \<not> reproduces wholeNumbers False (Arr [Str ''a'']) (Str ''a'') \<and>
   stringifyQueryString wholeNumbers [(''tags'', Arr [])] = Inr [] \<and>
   parseQueryString wholeNumbers [] [(''tags'', Arr [])] = [] \<and>
   stringifyQueryString wholeNumbers [(''__proto__'', Str ''x''), (''a'', Str ''1'')]
     = Inr ''__proto__=x&a=1'' \<and>
   parseQueryString wholeNumbers ''__proto__=x&a=1'' [] = [(''a'', Str ''1'')] \<and>
   stringifyQueryString wholeNumbers [(''page'', Num None)] = Inr ''page=NaN'' \<and>
   parseQueryString wholeNumbers ''page=NaN'' [(''page'', Num (Some 1))]
     = [(''page'', Str ''NaN'')] \<and>
   \<not> reproduces wholeNumbers True (Num None) (Str ''NaN'')"
  by code_simp

text \<open>
  Claim C3 as amended.  Let the names of the state be distinct, text and other than
  \<^verbatim>\<open>__proto__\<close>, and let every value be an array of at least two scalars or a scalar,
  with string forms that are text; where the default for its name is a number, let a
  scalar number be finite and read back from its string form as itself.  Then
  \<^verbatim>\<open>stringify\<close> returns a query string, and \<^verbatim>\<open>parse\<close> of it, against these defaults, has
  exactly the names of the state, each with a value that reproduces the state's: a
  scalar by itself, by the finite number it stands for where the default is a number, or
  by its string form where the default is not a number; an array by an array of the same
  length, each element by itself or by its string form.
\<close>

theorem stringify_parse_round_trip:
  "distinct (ownKeys st) \<Longrightarrow> list_all (roundTrips N initial) st \<Longrightarrow>
   \<exists>qs. stringifyQueryString N st = Inr qs \<and>
        distinct (ownKeys (parseQueryString N qs initial)) \<and>
        set (ownKeys (parseQueryString N qs initial)) = set (ownKeys st) \<and>
        (\<forall>(k, v) \<in> set st. \<exists>v'. map_of (parseQueryString N qs initial) k = Some v' \<and>
            reproduces N (numericDefault initial k) v v')"
proof -
  assume names: "distinct (ownKeys st)" and ok: "list_all (roundTrips N initial) st"
  then have all: "\<forall>entry \<in> set st. roundTrips N initial entry"
    by (simp add: list_all_iff)
  from round_trip [OF names all] obtain qs
    where qs: "stringifyQueryString N st = Inr qs"
      "distinct (ownKeys (parseQueryString N qs initial))"
      "set (ownKeys (parseQueryString N qs initial)) = set (ownKeys st)"
      "\<forall>entry \<in> set st. map_of (parseQueryString N qs initial) (fst entry)
        = Some (coerced N initial (fst entry) (snd entry))"
    by blast
  have "\<forall>(k, v) \<in> set st. \<exists>v'. map_of (parseQueryString N qs initial) k = Some v' \<and>
      reproduces N (numericDefault initial k) v v'"
    using qs(4) all coerced_reproduces [of N initial] by fastforce
  with qs(1-3) show ?thesis
    by blast
qed


text \<open>
  The state \<^verbatim>\<open>{page: 3, q: "a b&c", tags: ["x", "y"], n: "7"}\<close> under the defaults
  \<^verbatim>\<open>{page: 1, q: "", tags: [], n: 0}\<close>: it is written as
  \<^verbatim>\<open>page=3&q=a%20b%26c&tags=x&tags=y&n=7\<close> and read back with the number 7 for \<^verbatim>\<open>n\<close>.
\<close>

theorem stringify_parse_round_trip_witness:
  "distinct (ownKeys [(''page'', Num (Some 3)), (''q'', Str ''a b&c''),
      (''tags'', Arr [Str ''x'', Str ''y'']), (''n'', Str ''7'') :: string \<times> int option jsval]) \<and>
   list_all (roundTrips wholeNumbers
      [(''page'', Num (Some 1)), (''q'', Str []), (''tags'', Arr []), (''n'', Num (Some 0))])
     [(''page'', Num (Some 3)), (''q'', Str ''a b&c''),
      (''tags'', Arr [Str ''x'', Str ''y'']), (''n'', Str ''7'')] \<and>
   stringifyQueryString wholeNumbers
      [(''page'', Num (Some 3)), (''q'', Str ''a b&c''),
       (''tags'', Arr [Str ''x'', Str ''y'']), (''n'', Str ''7'')]
     = Inr ''page=3&q=a%20b%26c&tags=x&tags=y&n=7'' \<and>
   parseQueryString wholeNumbers ''page=3&q=a%20b%26c&tags=x&tags=y&n=7''
      [(''page'', Num (Some 1)), (''q'', Str []), (''tags'', Arr []), (''n'', Num (Some 0))]
     = [(''page'', Num (Some 3)), (''q'', Str ''a b&c''),
        (''tags'', Arr [Str ''x'', Str ''y'']), (''n'', Num (Some 7))] \<and>
   (\<exists>v'. map_of (parseQueryString wholeNumbers ''page=3&q=a%20b%26c&tags=x&tags=y&n=7''
        [(''page'', Num (Some 1)), (''q'', Str []), (''tags'', Arr []), (''n'', Num (Some 0))])
        ''n'' = Some v' \<and>
      reproduces wholeNumbers True (Str ''7'') v')"
proof -
  let ?st = "[(''page'', Num (Some 3)), (''q'', Str ''a b&c''),
      (''tags'', Arr [Str ''x'', Str ''y'']), (''n'', Str ''7'')] :: int option obj"
  let ?d = "[(''page'', Num (Some 1)), (''q'', Str []), (''tags'', Arr []),
      (''n'', Num (Some 0))] :: int option obj"
  have names: "distinct (ownKeys ?st)"
    by (simp add: ownKeys_def)
  have vals: "list_all (roundTrips wholeNumbers ?d) ?st"
    by code_simp
  have written: "stringifyQueryString wholeNumbers ?st
      = Inr ''page=3&q=a%20b%26c&tags=x&tags=y&n=7''"
    by code_simp
  have readBack: "parseQueryString wholeNumbers ''page=3&q=a%20b%26c&tags=x&tags=y&n=7'' ?d
      = [(''page'', Num (Some 3)), (''q'', Str ''a b&c''),
         (''tags'', Arr [Str ''x'', Str ''y'']), (''n'', Num (Some 7))]"
    by code_simp
  have numeric: "numericDefault ?d ''n''"
    by code_simp
  from stringify_parse_round_trip [OF names vals] obtain qs
    where qs: "stringifyQueryString wholeNumbers ?st = Inr qs"
      and each: "\<forall>(k, v) \<in> set ?st. \<exists>v'. map_of (parseQueryString wholeNumbers qs ?d) k = Some v' \<and>
            reproduces wholeNumbers (numericDefault ?d k) v v'"
    by blast
  from qs written have "qs = ''page=3&q=a%20b%26c&tags=x&tags=y&n=7''"
    by (simp only: sum.inject)
  with each have "\<exists>v'. map_of (parseQueryString wholeNumbers
        ''page=3&q=a%20b%26c&tags=x&tags=y&n=7'' ?d) ''n'' = Some v' \<and>
      reproduces wholeNumbers (numericDefault ?d ''n'') (Str ''7'') v'"
    by (simp only: list.set ball_simps prod.case)
  with numeric have "\<exists>v'. map_of (parseQueryString wholeNumbers
        ''page=3&q=a%20b%26c&tags=x&tags=y&n=7'' ?d) ''n'' = Some v' \<and>
      reproduces wholeNumbers True (Str ''7'') v'"
    by (simp only: eq_True)
  with names vals written readBack show ?thesis
    by (intro conjI)
qed

section \<open>The hook's operations\<close>

lemma state_mount: "state (mount opts (window w)) = useState_initial opts w"
  by (simp add: mount_def useState_initial_def getInitialStateWithQueryString_def)

text \<open>
  Claim C8.  While \<^verbatim>\<open>isSyncPathname\<close> is on, the handler of a back or forward navigation
  replaces the state by the one that initialisation computes from the location the
  browser is at now, and changes nothing else: it makes no call of \<^verbatim>\<open>pushState\<close> and no
  call of \<^verbatim>\<open>onPathnameChange\<close>, and the location stays as the navigation left it.
\<close>

theorem handlePopState_resync:
  "isSyncPathname opts \<Longrightarrow>
   handlePopState opts w = w\<lparr>state := state (mount opts (window w))\<rparr> \<and>
   pushed (handlePopState opts w) = pushed w \<and>
   pathnameChanges (handlePopState opts w) = pathnameChanges w \<and>
   window (handlePopState opts w) = window w"
  by (simp add: handlePopState_def state_mount useState_initial_def)

text \<open>
  With the defaults \<^verbatim>\<open>{page: 1}\<close>, after a \<^verbatim>\<open>setState\<close> that pushed \<^verbatim>\<open>/p?page=3\<close>, going
  back to \<^verbatim>\<open>/p?page=2\<close> gives the state \<^verbatim>\<open>{page: 2}\<close> and leaves the history as it was.
\<close>

theorem handlePopState_resync_witness:
  "isSyncPathname (defaultOptions wholeNumbers [(''page'', Num (Some 1))]) \<and>
   handlePopState (defaultOptions wholeNumbers [(''page'', Num (Some 1))])
     \<lparr> state = [(''page'', Num (Some 3))], window = Some (Url ''/p'' ''page=2''),
       valueChanges = [], pathnameChanges = [], pushed = [''/p?page=3''] \<rparr>
   = \<lparr> state = [(''page'', Num (Some 2))], window = Some (Url ''/p'' ''page=2''),
       valueChanges = [], pathnameChanges = [], pushed = [''/p?page=3''] \<rparr>"
proof -
  let ?opts = "defaultOptions wholeNumbers [(''page'', Num (Some 1))]"
  have sync: "isSyncPathname ?opts"
    by (simp add: defaultOptions_def)
  have "state (mount ?opts (Some (Url ''/p'' ''page=2''))) = [(''page'', Num (Some 2))]"
    by code_simp
  with handlePopState_resync [OF sync] sync show ?thesis
    by simp
qed

text \<open>The same for the event as the browser delivers it, with the move to the new location.\<close>

lemma popstate_resync:
  "isSyncPathname opts \<Longrightarrow> window w = Some old \<Longrightarrow>
   popstate opts loc w = w\<lparr>window := Some loc, state := state (mount opts (Some loc))\<rparr>"
  using state_mount [of opts "w\<lparr>window := Some loc\<rparr>"]
  by (simp add: popstate_def handlePopState_def useState_initial_def)

text \<open>
  Claim C1 says that a call of the third element of the hook's result sets the state to
  the defaults.  The code does not do that: the call returns a function and leaves the
  world as it is, whatever the options and the world.  With the defaults \<^verbatim>\<open>{page: 1}\<close>
  and no window, after \<^verbatim>\<open>setState({page: 3})\<close> a call of \<^verbatim>\<open>reset\<close> leaves the state at
  \<^verbatim>\<open>{page: 3}\<close>.
\<close>

theorem reset_call_changes_nothing:
  "snd (reset opts w) = w \<and>
   state (snd (reset (defaultOptions wholeNumbers [(''page'', Num (Some 1))])
     (snd (setState (defaultOptions wholeNumbers [(''page'', Num (Some 1))])
        (Value [(''page'', Num (Some 3))])
        (mount (defaultOptions wholeNumbers [(''page'', Num (Some 1))]) None)))))
     = [(''page'', Num (Some 3))]"
proof
  show "snd (reset opts w) = w"
    by (simp add: reset_def)
  show "state (snd (reset (defaultOptions wholeNumbers [(''page'', Num (Some 1))])
     (snd (setState (defaultOptions wholeNumbers [(''page'', Num (Some 1))])
        (Value [(''page'', Num (Some 3))])
        (mount (defaultOptions wholeNumbers [(''page'', Num (Some 1))]) None)))))
     = [(''page'', Num (Some 3))]"
    by code_simp
qed

text \<open>
  Only the function that the call returns resets: run on any world, it sets the state to
  the defaults, as \<^verbatim>\<open>setState(RESET)\<close> does.
\<close>

lemma reset_returned_function:
  "fst (reset opts w) = setState opts RESET \<and>
   state (snd (setState opts RESET w')) = initialValue opts"
  by (simp add: reset_def setState_def Let_def bind_def
      split: option.split location.split sum.split)

text \<open>
  Claim C2 says that \<^verbatim>\<open>setState\<close> writes the URL only when \<^verbatim>\<open>isSyncPathname\<close> is on.
  The code of \<^verbatim>\<open>setState\<close> never reads that option.  With the option off, the defaults
  \<^verbatim>\<open>{page: 1}\<close> and the location \<^verbatim>\<open>/p?ref=abc\<close>, \<^verbatim>\<open>setState({page: 3})\<close> calls
  \<^verbatim>\<open>pushState\<close> with \<^verbatim>\<open>/p?ref=abc&page=3\<close>.
\<close>

theorem setState_writes_url_without_sync:
  "pushed (snd (setState
      ((defaultOptions wholeNumbers [(''page'', Num (Some 1))])\<lparr>isSyncPathname := False\<rparr>)
      (Value [(''page'', Num (Some 3))])
      (mount ((defaultOptions wholeNumbers [(''page'', Num (Some 1))])\<lparr>isSyncPathname := False\<rparr>)
         (Some (Url ''/p'' ''ref=abc'')))))
   = [''/p?ref=abc&page=3'']"
  by code_simp

lemma setState_ignores_isSyncPathname:
  "setState (opts\<lparr>isSyncPathname := b\<rparr>) val w = setState opts val w"
  by (simp add: setState_def Let_def
      cong: action.case_cong option.case_cong location.case_cong sum.case_cong)

text \<open>
  Claim C4 says that the state after reconciliation has exactly the names of the
  defaults.  The loop that removes the foreign names deletes from the list it is
  iterating over, so the pair after a deleted one is never looked at.  With the defaults
  \<^verbatim>\<open>{page: 1}\<close> and the location \<^verbatim>\<open>/p?a=1&b=2\<close> the initial state is
  \<^verbatim>\<open>{page: 1, b: "2"}\<close>.
\<close>

theorem reconciliation_keeps_foreign_key:
  "state (mount (defaultOptions wholeNumbers [(''page'', Num (Some 1))])
     (Some (Url ''/p'' ''a=1&b=2'')))
   = [(''page'', Num (Some 1)), (''b'', Str ''2'')]"
  by code_simp

text \<open>
  Claim C6 says that an entry whose value is \<^verbatim>\<open>null\<close> or \<^verbatim>\<open>undefined\<close> adds neither a
  pair nor a separator.  It adds no pair, but the \<^verbatim>\<open>undefined\<close> that its callback
  returns stays in the list that is joined, so a separator is written for it:
  \<^verbatim>\<open>{a: null, b: "1"}\<close> gives \<^verbatim>\<open>&b=1\<close>, and \<^verbatim>\<open>{a: "1", b: [undefined, "2"]}\<close> gives
  \<^verbatim>\<open>a=1&&b=2\<close>.
\<close>

theorem stringify_null_leaves_separator:
  "stringifyQueryString wholeNumbers [(''a'', Null), (''b'', Str ''1'')] = Inr ''&b=1'' \<and>
   stringifyQueryString wholeNumbers [(''a'', Str ''1''), (''b'', Arr [Undefined, Str ''2''])]
     = Inr ''a=1&&b=2''"
  by code_simp

text \<open>
  Claim C7 says that \<^verbatim>\<open>stringify\<close> never raises and that no exception leaves any
  operation of the hook.  Both fail.  \<^verbatim>\<open>stringify\<close> raises \<^verbatim>\<open>URIError\<close> on a string with
  an unpaired surrogate, and \<^verbatim>\<open>setState\<close>, which has no \<^verbatim>\<open>try\<close>, lets it out.  A caller's
  codec whose \<^verbatim>\<open>parse\<close> raises is caught by initialisation, which answers the defaults,
  and is not caught by \<^verbatim>\<open>setState\<close>.
\<close>

theorem setState_raises:
  "stringifyQueryString wholeNumbers [(''q'', Str [CHR 0xED, CHR 0xA0, CHR 0x80])]
     = Inl URIError \<and>
   fst (setState (defaultOptions wholeNumbers [(''q'', Str [])])
      (Value [(''q'', Str [CHR 0xED, CHR 0xA0, CHR 0x80])])
      (mount (defaultOptions wholeNumbers [(''q'', Str [])]) (Some (Url ''/p'' []))))
     = Some URIError \<and>
   state (mount
      ((defaultOptions wholeNumbers [(''q'', Str [])])
         \<lparr>queryString := \<lparr> parse = (\<lambda>s. Inl (Thrown ''SyntaxError'')),
                            stringify = stringifyQueryString wholeNumbers \<rparr>\<rparr>)
      (Some (Url ''/p'' [])))
     = [(''q'', Str [])] \<and>
   fst (setState
      ((defaultOptions wholeNumbers [(''q'', Str [])])
         \<lparr>queryString := \<lparr> parse = (\<lambda>s. Inl (Thrown ''SyntaxError'')),
                            stringify = stringifyQueryString wholeNumbers \<rparr>\<rparr>)
      (Value [(''q'', Str ''x'')])
      \<lparr> state = [(''q'', Str [])], window = Some (Url ''/p'' []),
        valueChanges = [], pathnameChanges = [], pushed = [] \<rparr>)
     = Some (Thrown ''SyntaxError'')"
  by code_simp

text \<open>
  The other operations cannot raise: \<^verbatim>\<open>parse\<close> of the default codec always returns an
  object, and initialisation and the navigation handler return a state for every codec.
\<close>

lemma default_parse_returns:
  "parse (createQueryString N initial) s = Inr (parseQueryString N s initial)"
  by (simp add: createQueryString_def)

section \<open>The URL that setState writes\<close>

text \<open>Facts about \<^verbatim>\<open>Object.assign\<close> on objects with distinct names.\<close>

lemma Object_assign_map:
  "distinct (ownKeys t) \<Longrightarrow> distinct (ownKeys s) \<Longrightarrow>
   distinct (ownKeys (Object_assign t s)) \<and>
   map_of (Object_assign t s) k =
     (case map_of s k of
        Some v \<Rightarrow> if k = ''__proto__'' \<and> k \<notin> set (ownKeys t) then None else Some v
      | None \<Rightarrow> map_of t k)"
  unfolding Object_assign_def
proof (induction s arbitrary: t)
  case Nil
  then show ?case by simp
next
  case (Cons entry s)
  obtain k' v' where entry: "entry = (k', v')" by (cases entry)
  from Cons.prems entry have fresh: "map_of s k' = None" and rest: "distinct (ownKeys s)"
    by (auto simp: ownKeys_def map_of_eq_None_iff)
  have d: "distinct (ownKeys (setProp t k' v'))"
    using Cons.prems(1) by (rule distinct_setProp)
  have none: "(map_of t k = None) = (k \<notin> set (ownKeys t))"
    by (simp add: keys_iff_map_of)
  from Cons.IH [OF d rest] fresh entry none show ?case
    by (auto simp: map_of_setProp [OF Cons.prems(1)] keys_setProp split: option.split)
qed

lemma getAll_values: "set (getAll ps k) \<subseteq> snd ` set ps"
  by (auto simp: getAll_def)

lemma keys_getAll: "k \<in> set (keys ps) \<Longrightarrow> getAll ps k \<noteq> []"
  by (induction ps) (auto simp: keys_def getAll_def)

lemma foreign_entry:
  assumes enc: "\<forall>p \<in> set ps. utf8Text (fst p) \<and> utf8Text (snd p)"
    and k: "k \<in> set (keys ps)"
  shows "entryOk N (k, if length (getAll ps k) > 1 then Arr (map Str (getAll ps k)) else get ps k)"
    and "texts N (if length (getAll ps k) > 1 then Arr (map Str (getAll ps k)) else get ps k)
      = getAll ps k"
proof -
  from enc k have name: "utf8Text k"
    by (auto simp: keys_def)
  from enc getAll_values [of ps k] have vals: "\<forall>t \<in> set (getAll ps k). utf8Text t"
    by auto
  from keys_getAll [OF k] obtain t ts where all: "getAll ps k = t # ts"
    by (cases "getAll ps k") auto
  from name vals all
  show "entryOk N (k, if length (getAll ps k) > 1 then Arr (map Str (getAll ps k)) else get ps k)"
    by (auto simp: entryOk_def get_def plain_def list_all_iff)
  from all
  show "texts N (if length (getAll ps k) > 1 then Arr (map Str (getAll ps k)) else get ps k)
      = getAll ps k"
    by (cases ts) (simp_all add: texts_def get_def comp_def)
qed

lemma overlay_written:
  assumes names: "distinct (ownKeys st)"
    and vals: "list_all (entryOk N) st"
    and full: "set (ownKeys initial) \<subseteq> set (ownKeys st)"
    and enc: "\<forall>p \<in> set ps. utf8Text (fst p) \<and> utf8Text (snd p)"
  shows "\<exists>qs. stringifyQueryString N (Object_assign (parseQueryString N (toString ps) initial) st)
        = Inr qs \<and>
      getAll (URLSearchParams qs) ''__proto__'' = [] \<and>
      (\<forall>(k, v) \<in> set st. k \<noteq> ''__proto__'' \<longrightarrow> getAll (URLSearchParams qs) k = texts N v) \<and>
      (\<forall>k. k \<notin> set (ownKeys st) \<and> k \<noteq> ''__proto__'' \<longrightarrow>
         getAll (URLSearchParams qs) k = getAll ps k)"
proof -
  let ?parsed = "parseQueryString N (toString ps) initial"
  let ?overlay = "Object_assign ?parsed st"
  let ?foreign = "\<lambda>k. if length (getAll ps k) > 1 then Arr (map Str (getAll ps k)) else get ps k"
  have dp: "distinct (ownKeys ?parsed)"
    by (rule distinct_parsed)
  have proto: "''__proto__'' \<notin> set (ownKeys ?parsed)"
    by (simp add: keys_iff_map_of parsed)
  from Object_assign_map [OF dp names]
  have dov: "distinct (ownKeys ?overlay)"
    and ov: "\<And>k. map_of ?overlay k =
      (case map_of st k of
         Some v \<Rightarrow> if k = ''__proto__'' \<and> k \<notin> set (ownKeys ?parsed) then None else Some v
       | None \<Rightarrow> map_of ?parsed k)"
    by simp_all
  have none: "\<And>k. (map_of st k = None) = (k \<notin> set (ownKeys st))"
    by (simp add: keys_iff_map_of)
  have noproto: "''__proto__'' \<notin> set (ownKeys ?overlay)"
    using proto by (simp add: keys_iff_map_of [of _ ?overlay] ov parsed split: option.split)
  have entries: "\<And>k v. ((k, v) \<in> set ?overlay) =
      (k \<noteq> ''__proto__'' \<and>
       ((k, v) \<in> set st \<or> (k \<notin> set (ownKeys st) \<and> (k, v) \<in> set ?parsed)))"
  proof -
    fix k v
    show "((k, v) \<in> set ?overlay) =
      (k \<noteq> ''__proto__'' \<and>
       ((k, v) \<in> set st \<or> (k \<notin> set (ownKeys st) \<and> (k, v) \<in> set ?parsed)))"
      using none [of k] proto
      by (cases "map_of st k")
        (auto simp: entry_iff_map_of [OF dov] entry_iff_map_of [OF names]
          entry_iff_map_of [OF dp] ov keys_iff_map_of)
  qed
  have plainName: "\<And>k. k \<notin> set (ownKeys st) \<Longrightarrow>
      \<not> (hasKey k initial \<and> typeof_number (getProp initial k))"
  proof -
    fix k assume "k \<notin> set (ownKeys st)"
    with full have "map_of initial k = None"
      by (auto simp: ownKeys_def map_of_eq_None_iff)
    then show "\<not> (hasKey k initial \<and> typeof_number (getProp initial k))"
      by (simp add: getProp_def)
  qed
  have foreign: "\<And>k v. k \<notin> set (ownKeys st) \<Longrightarrow> k \<noteq> ''__proto__'' \<Longrightarrow>
      ((k, v) \<in> set ?parsed) = (k \<in> set (keys ps) \<and> v = ?foreign k)"
    using plainName
    by (auto simp: entry_iff_map_of [OF dp] parsed URLSearchParams_toString [OF enc])
  have "\<forall>entry \<in> set ?overlay. entryOk N entry"
  proof
    fix entry assume mem: "entry \<in> set ?overlay"
    obtain k v where entry: "entry = (k, v)" by (cases entry)
    from mem entry entries consider "(k, v) \<in> set st"
      | "k \<notin> set (ownKeys st)" "k \<noteq> ''__proto__''" "(k, v) \<in> set ?parsed"
      by blast
    then show "entryOk N entry"
    proof cases
      case 1
      with vals entry show ?thesis by (auto simp: list_all_iff)
    next
      case 2
      with foreign have "k \<in> set (keys ps)" "v = ?foreign k" by auto
      with foreign_entry(1) [OF enc, of k N] entry show ?thesis by simp
    qed
  qed
  from parse_stringify_params [OF this] obtain qs
    where qs: "stringifyQueryString N ?overlay = Inr qs" "URLSearchParams qs = flatten N ?overlay"
    by blast
  have lost: "getAll (URLSearchParams qs) ''__proto__'' = []"
    using noproto by (simp add: qs(2) getAll_flatten_absent)
  have new: "\<forall>(k, v) \<in> set st. k \<noteq> ''__proto__'' \<longrightarrow> getAll (URLSearchParams qs) k = texts N v"
    using entries dov by (auto simp: qs(2) getAll_flatten)
  have old: "\<forall>k. k \<notin> set (ownKeys st) \<and> k \<noteq> ''__proto__'' \<longrightarrow>
      getAll (URLSearchParams qs) k = getAll ps k"
  proof (intro allI impI)
    fix k assume "k \<notin> set (ownKeys st) \<and> k \<noteq> ''__proto__''"
    then have k: "k \<notin> set (ownKeys st)" and kp: "k \<noteq> ''__proto__''"
      by simp_all
    show "getAll (URLSearchParams qs) k = getAll ps k"
    proof (cases "k \<in> set (keys ps)")
      case True
      with foreign [OF k kp] entries k kp have "(k, ?foreign k) \<in> set ?overlay"
        by simp
      with dov have "getAll (flatten N ?overlay) k = texts N (?foreign k)"
        by (simp add: getAll_flatten)
      with foreign_entry(2) [OF enc True, of N] show ?thesis
        by (simp add: qs(2))
    next
      case False
      with k none [of k] have "k \<notin> set (ownKeys ?overlay)"
        by (simp add: keys_iff_map_of [of _ ?overlay] ov parsed URLSearchParams_toString [OF enc])
      then have "getAll (flatten N ?overlay) k = []"
        by (rule getAll_flatten_absent)
      moreover from False have "getAll ps k = []"
        using getAll_keys by blast
      ultimately show ?thesis
        by (simp add: qs(2))
    qed
  qed
  from qs(1) lost new old show ?thesis by blast
qed

lemma setState_Value_default:
  assumes "window w = Some (Url path q)"
    and "queryString opts = createQueryString N (initialValue opts)"
    and "stringifyQueryString N
       (Object_assign (parseQueryString N (toString (urlencodedParse q)) (initialValue opts)) st)
       = Inr qs"
  shows "fst (setState opts (Value st) w) = None"
    and "state (snd (setState opts (Value st) w)) = st"
    and "onPathnameChange opts \<Longrightarrow>
      pathnameChanges (snd (setState opts (Value st) w)) = pathnameChanges w @ [path @ ''?'' @ qs]
      \<and> pushed (snd (setState opts (Value st) w)) = pushed w"
    and "\<not> onPathnameChange opts \<Longrightarrow>
      pushed (snd (setState opts (Value st) w)) = pushed w @ [path @ ''?'' @ qs]
      \<and> pathnameChanges (snd (setState opts (Value st) w)) = pathnameChanges w"
  using assms
  by (simp_all add: setState_def Let_def bind_def createQueryString_def)

lemma pushed_Value_default:
  assumes "window w = Some (Url path q)"
    and "urlencodedParse q = ps"
    and "toString ps = s"
    and "parseQueryString N s initial = parsed"
    and "Object_assign parsed st = overlay"
    and "stringifyQueryString N overlay = Inr qs"
  shows "pushed (snd (setState (defaultOptions N initial) (Value st) w))
     = pushed w @ [path @ ''?'' @ qs]"
  using assms
  by (simp add: setState_def Let_def bind_def createQueryString_def defaultOptions_def)

lemma keys_Object_assign:
  "set (ownKeys t) \<union> (set (ownKeys s) - {''__proto__''}) \<subseteq> set (ownKeys (Object_assign t s))"
  unfolding Object_assign_def
proof (induction s arbitrary: t)
  case Nil
  show ?case by (simp add: ownKeys_def)
next
  case (Cons entry s)
  have "set (ownKeys (entry # s)) = insert (fst entry) (set (ownKeys s))"
    by (simp add: ownKeys_def)
  with Cons.IH [of "setProp t (fst entry) (snd entry)"] show ?case
    by (auto simp: case_prod_beta keys_setProp split: if_splits)
qed

text \<open>
  Claim C9 says that the URL written by \<^verbatim>\<open>setState\<close> has one pair per schema key with the
  new value and keeps every foreign key with its existing value.  Three calls for which
  it does not, each with \<^verbatim>\<open>page\<close> and a second name in the defaults:

  \<^item> at \<^verbatim>\<open>/p?__proto__=x&ref=abc\<close>, \<^verbatim>\<open>setState({page: 3, q: "hello"})\<close> pushes
    \<^verbatim>\<open>/p?ref=abc&page=3&q=hello\<close>: the foreign key \<^verbatim>\<open>__proto__\<close> is lost, because line 50
    assigns it through the setter of \<^verbatim>\<open>Object.prototype\<close> and the parsed object never has
    it;
  \<^item> at \<^verbatim>\<open>/p?ref=abc\<close>, \<^verbatim>\<open>setState({page: 3, q: null})\<close> pushes \<^verbatim>\<open>/p?ref=abc&page=3&\<close>,
    with no pair for the schema key \<^verbatim>\<open>q\<close>;
  \<^item> at \<^verbatim>\<open>/p?ref=abc\<close>, \<^verbatim>\<open>setState({page: 3, tags: ["a", "b"]})\<close> pushes
    \<^verbatim>\<open>/p?ref=abc&page=3&tags=a&tags=b\<close>, with two pairs for the schema key \<^verbatim>\<open>tags\<close>.
\<close>

theorem setState_foreign_key_counterexample:
  "getAll (urlencodedParse ''__proto__=x&ref=abc'') ''__proto__'' = [''x''] \<and>
   pushed (snd (setState (defaultOptions wholeNumbers [(''page'', Num (Some 1)), (''q'', Str [])])
      (Value [(''page'', Num (Some 3)), (''q'', Str ''hello'')])
      \<lparr> state = [(''page'', Num (Some 1)), (''q'', Str [])],
        window = Some (Url ''/p'' ''__proto__=x&ref=abc''),
        valueChanges = [], pathnameChanges = [], pushed = [] \<rparr>))
     = [''/p?ref=abc&page=3&q=hello''] \<and>
   getAll (URLSearchParams ''ref=abc&page=3&q=hello'') ''__proto__'' = [] \<and>
   pushed (snd (setState (defaultOptions wholeNumbers [(''page'', Num (Some 1)), (''q'', Str [])])
      (Value [(''page'', Num (Some 3)), (''q'', Null)])
      \<lparr> state = [(''page'', Num (Some 1)), (''q'', Str [])],
        window = Some (Url ''/p'' ''ref=abc''),
        valueChanges = [], pathnameChanges = [], pushed = [] \<rparr>))
     = [''/p?ref=abc&page=3&''] \<and>
   getAll (URLSearchParams ''ref=abc&page=3&'') ''q'' = [] \<and>
   pushed (snd (setState
      (defaultOptions wholeNumbers [(''page'', Num (Some 1)), (''tags'', Arr [Str ''x'', Str ''y''])])
      (Value [(''page'', Num (Some 3)), (''tags'', Arr [Str ''a'', Str ''b''])])
      \<lparr> state = [(''page'', Num (Some 1)), (''tags'', Arr [Str ''x'', Str ''y''])],
        window = Some (Url ''/p'' ''ref=abc''),
        valueChanges = [], pathnameChanges = [], pushed = [] \<rparr>))
     = [''/p?ref=abc&page=3&tags=a&tags=b'']"
proof -
  let ?d = "[(''page'', Num (Some 1)), (''q'', Str [])] :: int option obj"
  let ?e = "[(''page'', Num (Some 1)), (''tags'', Arr [Str ''x'', Str ''y''])] :: int option obj"
  let ?st = "[(''page'', Num (Some 3)), (''q'', Str ''hello'')] :: int option obj"
  let ?sn = "[(''page'', Num (Some 3)), (''q'', Null)] :: int option obj"
  let ?sa = "[(''page'', Num (Some 3)), (''tags'', Arr [Str ''a'', Str ''b''])] :: int option obj"
  have a1: "urlencodedParse ''__proto__=x&ref=abc'' = [(''__proto__'', ''x''), (''ref'', ''abc'')]"
    by code_simp
  have a2: "toString [(''__proto__'', ''x''), (''ref'', ''abc'')] = ''__proto__=x&ref=abc''"
    by code_simp
  have a3: "parseQueryString wholeNumbers ''__proto__=x&ref=abc'' ?d = [(''ref'', Str ''abc'')]"
    by code_simp
  have a4: "Object_assign [(''ref'', Str ''abc'')] ?st
      = [(''ref'', Str ''abc''), (''page'', Num (Some 3)), (''q'', Str ''hello'')]"
    by code_simp
  have a5: "stringifyQueryString wholeNumbers
      [(''ref'', Str ''abc''), (''page'', Num (Some 3)), (''q'', Str ''hello'')]
      = Inr ''ref=abc&page=3&q=hello''"
    by code_simp
  have b1: "urlencodedParse ''ref=abc'' = [(''ref'', ''abc'')]"
    by code_simp
  have b2: "toString [(''ref'', ''abc'')] = ''ref=abc''"
    by code_simp
  have b3: "parseQueryString wholeNumbers ''ref=abc'' ?d = [(''ref'', Str ''abc'')]"
    by code_simp
  have b4: "Object_assign [(''ref'', Str ''abc'')] ?sn
      = [(''ref'', Str ''abc''), (''page'', Num (Some 3)), (''q'', Null)]"
    by code_simp
  have b5: "stringifyQueryString wholeNumbers
      [(''ref'', Str ''abc''), (''page'', Num (Some 3)), (''q'', Null)]
      = Inr ''ref=abc&page=3&''"
    by code_simp
  have c3: "parseQueryString wholeNumbers ''ref=abc'' ?e = [(''ref'', Str ''abc'')]"
    by code_simp
  have c4: "Object_assign [(''ref'', Str ''abc'')] ?sa
      = [(''ref'', Str ''abc''), (''page'', Num (Some 3)), (''tags'', Arr [Str ''a'', Str ''b''])]"
    by code_simp
  have c5: "stringifyQueryString wholeNumbers
      [(''ref'', Str ''abc''), (''page'', Num (Some 3)), (''tags'', Arr [Str ''a'', Str ''b''])]
      = Inr ''ref=abc&page=3&tags=a&tags=b''"
    by code_simp
  have lost: "getAll (URLSearchParams ''ref=abc&page=3&q=hello'') ''__proto__'' = []"
    by code_simp
  have none: "getAll (URLSearchParams ''ref=abc&page=3&'') ''q'' = []"
    by code_simp
  have "getAll (urlencodedParse ''__proto__=x&ref=abc'') ''__proto__'' = [''x'']"
    by (simp add: a1 getAll_def)
  moreover
  have "pushed (snd (setState (defaultOptions wholeNumbers ?d) (Value ?st)
      \<lparr> state = ?d, window = Some (Url ''/p'' ''__proto__=x&ref=abc''),
        valueChanges = [], pathnameChanges = [], pushed = [] \<rparr>))
     = [''/p?ref=abc&page=3&q=hello'']"
    using pushed_Value_default [OF _ a1 a2 a3 a4 a5, of _ "''/p''"] by simp
  moreover
  have "pushed (snd (setState (defaultOptions wholeNumbers ?d) (Value ?sn)
      \<lparr> state = ?d, window = Some (Url ''/p'' ''ref=abc''),
        valueChanges = [], pathnameChanges = [], pushed = [] \<rparr>))
     = [''/p?ref=abc&page=3&'']"
    using pushed_Value_default [OF _ b1 b2 b3 b4 b5, of _ "''/p''"] by simp
  moreover
  have "pushed (snd (setState (defaultOptions wholeNumbers ?e) (Value ?sa)
      \<lparr> state = ?e, window = Some (Url ''/p'' ''ref=abc''),
        valueChanges = [], pathnameChanges = [], pushed = [] \<rparr>))
     = [''/p?ref=abc&page=3&tags=a&tags=b'']"
    using pushed_Value_default [OF _ b1 b2 c3 c4 c5, of _ "''/p''"] by simp
  ultimately show ?thesis
    using lost none by (intro conjI)
qed

text \<open>
  Claim C9 as amended.  Let \<^verbatim>\<open>setState\<close> be called, with the default codec, with a full
  replacement state: an object that has every name of the defaults, each value a string,
  a number or an array of them, none \<^verbatim>\<open>null\<close>, names and string forms being text.  Then
  it raises nothing and writes one URL, the path of the location, \<^verbatim>\<open>?\<close> and a query
  string, through \<^verbatim>\<open>pushState\<close> or, if one is configured, through \<^verbatim>\<open>onPathnameChange\<close>.
  Read as name-value pairs, that query string has no pair of the name \<^verbatim>\<open>__proto__\<close>; for
  each other name of the new state it has exactly the new value (one pair for a scalar,
  one per element for an array); and for every other name that is not in the state it
  has exactly the values the name has in the current location.
\<close>

theorem setState_keeps_foreign_keys:
  assumes "window w = Some (Url path q)"
    and "queryString opts = createQueryString N (initialValue opts)"
    and "distinct (ownKeys st)"
    and "list_all (entryOk N) st"
    and "set (ownKeys (initialValue opts)) \<subseteq> set (ownKeys st)"
  shows "\<exists>qs. fst (setState opts (Value st) w) = None \<and>
      (if onPathnameChange opts
       then pathnameChanges (snd (setState opts (Value st) w))
              = pathnameChanges w @ [path @ ''?'' @ qs]
       else pushed (snd (setState opts (Value st) w)) = pushed w @ [path @ ''?'' @ qs]) \<and>
      getAll (URLSearchParams qs) ''__proto__'' = [] \<and>
      (\<forall>(k, v) \<in> set st. k \<noteq> ''__proto__'' \<longrightarrow> getAll (URLSearchParams qs) k = texts N v) \<and>
      (\<forall>k. k \<notin> set (ownKeys st) \<and> k \<noteq> ''__proto__'' \<longrightarrow>
         getAll (URLSearchParams qs) k = getAll (urlencodedParse q) k)"
proof -
  from overlay_written [OF assms(3-5) urlencodedParse_text] obtain qs
    where qs: "stringifyQueryString N
        (Object_assign (parseQueryString N (toString (urlencodedParse q)) (initialValue opts)) st)
        = Inr qs"
      and lost: "getAll (URLSearchParams qs) ''__proto__'' = []"
      and new: "\<forall>(k, v) \<in> set st. k \<noteq> ''__proto__'' \<longrightarrow>
         getAll (URLSearchParams qs) k = texts N v"
      and old: "\<forall>k. k \<notin> set (ownKeys st) \<and> k \<noteq> ''__proto__'' \<longrightarrow>
         getAll (URLSearchParams qs) k = getAll (urlencodedParse q) k"
    by blast
  from setState_Value_default [OF assms(1,2) qs]
  have "fst (setState opts (Value st) w) = None \<and>
      (if onPathnameChange opts
       then pathnameChanges (snd (setState opts (Value st) w))
              = pathnameChanges w @ [path @ ''?'' @ qs]
       else pushed (snd (setState opts (Value st) w)) = pushed w @ [path @ ''?'' @ qs])"
    by simp
  with lost new old show ?thesis by blast
qed

text \<open>
  The scenario of the specification: the defaults \<^verbatim>\<open>{page: 1, q: ""}\<close>, the location
  \<^verbatim>\<open>/p?ref=abc\<close>, and \<^verbatim>\<open>setState({page: 3, q: "hello"})\<close>.  The URL pushed is
  \<^verbatim>\<open>/p?ref=abc&page=3&q=hello\<close>.
\<close>

theorem setState_keeps_foreign_keys_witness:
  "pushed (snd (setState (defaultOptions wholeNumbers [(''page'', Num (Some 1)), (''q'', Str [])])
      (Value [(''page'', Num (Some 3)), (''q'', Str ''hello'')])
      \<lparr> state = [(''page'', Num (Some 1)), (''q'', Str [])],
        window = Some (Url ''/p'' ''ref=abc''),
        valueChanges = [], pathnameChanges = [], pushed = [] \<rparr>))
     = [''/p?ref=abc&page=3&q=hello''] \<and>
   getAll (URLSearchParams ''ref=abc&page=3&q=hello'') ''page'' = [''3''] \<and>
   getAll (URLSearchParams ''ref=abc&page=3&q=hello'') ''q'' = [''hello''] \<and>
   getAll (URLSearchParams ''ref=abc&page=3&q=hello'') ''ref'' = [''abc'']"
proof -
  let ?d = "[(''page'', Num (Some 1)), (''q'', Str [])] :: int option obj"
  let ?opts = "defaultOptions wholeNumbers ?d"
  let ?st = "[(''page'', Num (Some 3)), (''q'', Str ''hello'')] :: int option obj"
  let ?w = "\<lparr> state = ?d, window = Some (Url ''/p'' ''ref=abc''),
      valueChanges = [], pathnameChanges = [], pushed = [] \<rparr> :: int option world"
  have current: "urlencodedParse ''ref=abc'' = [(''ref'', ''abc'')]"
    by code_simp
  have s2: "toString [(''ref'', ''abc'')] = ''ref=abc''"
    by code_simp
  have s3: "parseQueryString wholeNumbers ''ref=abc'' ?d = [(''ref'', Str ''abc'')]"
    by code_simp
  have s4: "Object_assign [(''ref'', Str ''abc'')] ?st
      = [(''ref'', Str ''abc''), (''page'', Num (Some 3)), (''q'', Str ''hello'')]"
    by code_simp
  have s5: "stringifyQueryString wholeNumbers
      [(''ref'', Str ''abc''), (''page'', Num (Some 3)), (''q'', Str ''hello'')]
      = Inr ''ref=abc&page=3&q=hello''"
    by code_simp
  have h1: "window ?w = Some (Url ''/p'' ''ref=abc'')"
    by simp
  have h2: "queryString ?opts = createQueryString wholeNumbers (initialValue ?opts)"
    by (simp add: defaultOptions_def)
  have h3: "distinct (ownKeys ?st)"
    by (simp add: ownKeys_def)
  have h4: "list_all (entryOk wholeNumbers) ?st"
    by code_simp
  have h5: "set (ownKeys (initialValue ?opts)) \<subseteq> set (ownKeys ?st)"
    by (simp add: defaultOptions_def ownKeys_def)
  have written: "pushed (snd (setState ?opts (Value ?st) ?w)) = [''/p?ref=abc&page=3&q=hello'']"
    using pushed_Value_default [OF h1 current s2 s3 s4 s5] by simp
  have plain: "\<not> onPathnameChange ?opts"
    by (simp add: defaultOptions_def)
  have t3: "NumberToString wholeNumbers (Some 3) = ''3''"
    by code_simp
  from setState_keeps_foreign_keys [OF h1 h2 h3 h4 h5] plain obtain qs
    where qs: "pushed (snd (setState ?opts (Value ?st) ?w)) = pushed ?w @ [''/p'' @ ''?'' @ qs]"
      and new: "\<forall>(k, v) \<in> set ?st. k \<noteq> ''__proto__'' \<longrightarrow>
         getAll (URLSearchParams qs) k = texts wholeNumbers v"
      and old: "\<forall>k. k \<notin> set (ownKeys ?st) \<and> k \<noteq> ''__proto__'' \<longrightarrow>
         getAll (URLSearchParams qs) k = getAll (urlencodedParse ''ref=abc'') k"
    by auto
  from qs written have qs_eq: "qs = ''ref=abc&page=3&q=hello''"
    by simp
  from new have "getAll (URLSearchParams qs) ''page'' = [''3'']"
    and "getAll (URLSearchParams qs) ''q'' = [''hello'']"
    by (simp_all add: t3 texts_def)
  moreover from old have "getAll (URLSearchParams qs) ''ref'' = [''abc'']"
    by (simp add: ownKeys_def current getAll_def)
  ultimately show ?thesis
    using written unfolding qs_eq by simp
qed

text \<open>
  What reconciliation does guarantee, next to claim C4: no name of the defaults, other
  than an own \<^verbatim>\<open>__proto__\<close>, is missing from the state it computes.
\<close>

lemma reconciliation_has_defaults:
  "set (ownKeys (initialValue opts)) - {''__proto__''}
     \<subseteq> set (ownKeys (getInitialStateWithQueryString opts w))"
proof -
  have "set (ownKeys (initialValue opts)) - {''__proto__''}
      \<subseteq> set (ownKeys (Object_assign (Object_assign [] (initialValue opts)) parsed))" for parsed
    using keys_Object_assign [of "[]" "initialValue opts"]
      keys_Object_assign [of "Object_assign [] (initialValue opts)" parsed]
    by blast
  then show ?thesis
    by (auto simp: getInitialStateWithQueryString_def Let_def
        split: option.split location.split sum.split)
qed

end
